theory Spec2Isabelle
  imports Complex_Main "HOL-Library.Multiset"
begin

section \<open>Token bucket rate limiter (src/utils/rateLimiter.ts)\<close>

text \<open>
  Token counts and millisecond timestamps are JavaScript numbers holding integers; they
  are modelled as \<open>int\<close>. Every evaluation of \<open>Date.now()\<close> is a reading of its own:
  a method takes one parameter for each reading it can make, in the order in which it
  makes them. \<open>cleanOldUsage\<close>, \<open>canProcess\<close> and \<open>getAvailableTokens\<close> read the
  clock once, \<open>consumeTokens\<close> twice, \<open>waitTimeForTokens\<close> up to three times.
\<close>

record TokenBucketConfig =
  maxTokens :: int
  refillRate :: int
  windowSize :: int

record UsageRecord =
  timestamp :: int
  tokensUsed :: int

record TokenBucket =
  config :: TokenBucketConfig
  usageHistory :: "UsageRecord list"
  queuedRequests :: int
  errors429Count :: int
  waitTimes :: "int list"

definition TokenBucket_new :: "TokenBucketConfig \<Rightarrow> TokenBucket" where
  "TokenBucket_new cfg =
     \<lparr>config = cfg, usageHistory = [], queuedRequests = 0, errors429Count = 0, waitTimes = []\<rparr>"

text \<open>\<open>cleanOldUsage\<close>: keep the records with \<open>timestamp > Date.now() - windowSize\<close>.\<close>

definition cleanOldUsage :: "int \<Rightarrow> TokenBucket \<Rightarrow> TokenBucket" where
  "cleanOldUsage now b =
     (let cutoff = now - windowSize (config b)
      in b\<lparr>usageHistory := filter (\<lambda>record. timestamp record > cutoff) (usageHistory b)\<rparr>)"

text \<open>\<open>getCurrentUsage\<close>: \<open>reduce\<close> from the left, starting at 0.\<close>

definition getCurrentUsage :: "TokenBucket \<Rightarrow> int" where
  "getCurrentUsage b = foldl (\<lambda>total record. total + tokensUsed record) 0 (usageHistory b)"

text \<open>Every method returns its result together with the bucket as the call leaves it.\<close>

definition canProcess :: "int \<Rightarrow> int \<Rightarrow> TokenBucket \<Rightarrow> bool \<times> TokenBucket" where
  "canProcess now tokenCount b =
     (let b1 = cleanOldUsage now b;
          currentUsage = getCurrentUsage b1
      in (currentUsage + tokenCount \<le> maxTokens (config b1), b1))"

text \<open>
  \<open>consumeTokens\<close>: the purge reads the clock (\<open>now1\<close>), then the new record reads
  it again (\<open>now2\<close>).
\<close>

definition consumeTokens :: "int \<Rightarrow> int \<Rightarrow> int \<Rightarrow> TokenBucket \<Rightarrow> TokenBucket" where
  "consumeTokens now1 now2 tokenCount b =
     (let b1 = cleanOldUsage now1 b
      in b1\<lparr>usageHistory := usageHistory b1 @ [\<lparr>timestamp = now2, tokensUsed = tokenCount\<rparr>]\<rparr>)"

definition getAvailableTokens :: "int \<Rightarrow> TokenBucket \<Rightarrow> int \<times> TokenBucket" where
  "getAvailableTokens now b =
     (let b1 = cleanOldUsage now b;
          currentUsage = getCurrentUsage b1
      in (max 0 (maxTokens (config b1) - currentUsage), b1))"

text \<open>
  The \<open>for\<close> loop of \<open>waitTimeForTokens\<close>: walk the history from its oldest record,
  adding up \<open>tokensUsed\<close>; the first record at which the running total reaches
  \<open>excessTokens\<close> gives the wait, measured against the clock as read there (\<open>now\<close>).
  \<open>None\<close> is the loop running off the end.
\<close>

fun walkUsage :: "int \<Rightarrow> int \<Rightarrow> int \<Rightarrow> int \<Rightarrow> UsageRecord list \<Rightarrow> int option" where
  "walkUsage now wsize excessTokens cumulativeTokens [] = None"
| "walkUsage now wsize excessTokens cumulativeTokens (usage # rest) =
     (let cumulativeTokens' = cumulativeTokens + tokensUsed usage
      in if cumulativeTokens' \<ge> excessTokens
         then Some (max 0 ((timestamp usage + wsize) - now))
         else walkUsage now wsize excessTokens cumulativeTokens' rest)"

text \<open>
  \<open>waitTimeForTokens\<close>: \<open>canProcess\<close> purges at the first reading \<open>now1\<close>; when it
  says no, \<open>cleanOldUsage\<close> purges again at the reading \<open>now2\<close>, and the record the
  loop stops at is measured against a third reading \<open>now3\<close>. The fallback after the loop
  reads no clock.
\<close>

definition waitTimeForTokens ::
  "int \<Rightarrow> int \<Rightarrow> int \<Rightarrow> int \<Rightarrow> TokenBucket \<Rightarrow> int \<times> TokenBucket" where
  "waitTimeForTokens now1 now2 now3 tokenCount b =
     (let (ok, b1) = canProcess now1 tokenCount b
      in if ok then (0, b1)
         else
           let b2 = cleanOldUsage now2 b1;
               currentUsage = getCurrentUsage b2;
               excessTokens = (currentUsage + tokenCount) - maxTokens (config b2)
           in case walkUsage now3 (windowSize (config b2)) excessTokens 0 (usageHistory b2) of
                Some waitTime \<Rightarrow> (waitTime, b2\<lparr>waitTimes := waitTimes b2 @ [waitTime]\<rparr>)
              | None \<Rightarrow>
                  (let fallbackWait = windowSize (config b2)
                   in (fallbackWait, b2\<lparr>waitTimes := waitTimes b2 @ [fallbackWait]\<rparr>)))"

definition recordRateLimitError :: "TokenBucket \<Rightarrow> TokenBucket" where
  "recordRateLimitError b = b\<lparr>errors429Count := errors429Count b + 1\<rparr>"

definition incrementQueuedRequests :: "TokenBucket \<Rightarrow> TokenBucket" where
  "incrementQueuedRequests b = b\<lparr>queuedRequests := queuedRequests b + 1\<rparr>"

definition decrementQueuedRequests :: "TokenBucket \<Rightarrow> TokenBucket" where
  "decrementQueuedRequests b = b\<lparr>queuedRequests := max 0 (queuedRequests b - 1)\<rparr>"

definition reset :: "TokenBucket \<Rightarrow> TokenBucket" where
  "reset b = b\<lparr>usageHistory := [], queuedRequests := 0, errors429Count := 0, waitTimes := []\<rparr>"

subsection \<open>The manager: one bucket per model name\<close>

text \<open>
  \<open>getAvailableTokens\<close> of the manager answers \<open>Infinity\<close> for a model without a
  bucket, so its result type adds that value to the integers.
\<close>

datatype number = Num int | Infinity

record RateLimiterManager =
  buckets :: "string \<rightharpoonup> TokenBucket"

definition RateLimiterManager_new :: RateLimiterManager where
  "RateLimiterManager_new =
     \<lparr>buckets =
        [''gpt-5'' \<mapsto> TokenBucket_new \<lparr>maxTokens = 30000, refillRate = 500, windowSize = 60000\<rparr>,
         ''gpt-4o'' \<mapsto> TokenBucket_new \<lparr>maxTokens = 800000, refillRate = 13333, windowSize = 60000\<rparr>,
         ''gpt-4-turbo'' \<mapsto> TokenBucket_new \<lparr>maxTokens = 450000, refillRate = 7500, windowSize = 60000\<rparr>]\<rparr>"

definition RateLimiterManager_canProcess ::
  "int \<Rightarrow> int \<Rightarrow> string \<Rightarrow> RateLimiterManager \<Rightarrow> bool \<times> RateLimiterManager" where
  "RateLimiterManager_canProcess now tokenCount model m =
     (case buckets m model of
        None \<Rightarrow> (True, m)
      | Some bucket \<Rightarrow>
          (let (ok, bucket') = canProcess now tokenCount bucket
           in (ok, m\<lparr>buckets := (buckets m)(model \<mapsto> bucket')\<rparr>)))"

definition RateLimiterManager_consumeTokens ::
  "int \<Rightarrow> int \<Rightarrow> int \<Rightarrow> string \<Rightarrow> RateLimiterManager \<Rightarrow> RateLimiterManager" where
  "RateLimiterManager_consumeTokens now1 now2 tokenCount model m =
     (case buckets m model of
        None \<Rightarrow> m
      | Some bucket \<Rightarrow>
          m\<lparr>buckets := (buckets m)(model \<mapsto> consumeTokens now1 now2 tokenCount bucket)\<rparr>)"

definition RateLimiterManager_getAvailableTokens ::
  "int \<Rightarrow> string \<Rightarrow> RateLimiterManager \<Rightarrow> number \<times> RateLimiterManager" where
  "RateLimiterManager_getAvailableTokens now model m =
     (case buckets m model of
        None \<Rightarrow> (Infinity, m)
      | Some bucket \<Rightarrow>
          (let (n, bucket') = getAvailableTokens now bucket
           in (Num n, m\<lparr>buckets := (buckets m)(model \<mapsto> bucket')\<rparr>)))"

definition RateLimiterManager_waitTimeForTokens ::
  "int \<Rightarrow> int \<Rightarrow> int \<Rightarrow> int \<Rightarrow> string \<Rightarrow> RateLimiterManager \<Rightarrow> int \<times> RateLimiterManager" where
  "RateLimiterManager_waitTimeForTokens now1 now2 now3 tokenCount model m =
     (case buckets m model of
        None \<Rightarrow> (0, m)
      | Some bucket \<Rightarrow>
          (let (w, bucket') = waitTimeForTokens now1 now2 now3 tokenCount bucket
           in (w, m\<lparr>buckets := (buckets m)(model \<mapsto> bucket')\<rparr>)))"

definition configureBucket ::
  "string \<Rightarrow> TokenBucketConfig \<Rightarrow> RateLimiterManager \<Rightarrow> RateLimiterManager" where
  "configureBucket model cfg m = m\<lparr>buckets := (buckets m)(model \<mapsto> TokenBucket_new cfg)\<rparr>"

text \<open>
  The words of the specification for the wait: the records still in the window, the
  excess over the quota, the first position whose prefix sum reaches the excess, the
  time until that record leaves the window, and the whole window when no position does.
  The specification speaks of one \<open>now\<close> (\<open>wait_spec\<close>); \<open>walk_spec\<close> is the same walk
  with the window taken at one reading of the clock and the expiry at a later one.
\<close>

definition inWindow :: "int \<Rightarrow> TokenBucket \<Rightarrow> UsageRecord list" where
  "inWindow now b = [r \<leftarrow> usageHistory b. now - windowSize (config b) < timestamp r]"

definition windowUsage :: "int \<Rightarrow> TokenBucket \<Rightarrow> int" where
  "windowUsage now b = sum_list (map tokensUsed (inWindow now b))"

definition walk_spec :: "int \<Rightarrow> int \<Rightarrow> int \<Rightarrow> TokenBucket \<Rightarrow> int" where
  "walk_spec now now' tokenCount b =
     (let h = inWindow now b;
          excess = windowUsage now b + tokenCount - maxTokens (config b)
      in case [i \<leftarrow> [0..<length h]. excess \<le> sum_list (map tokensUsed (take (Suc i) h))] of
           [] \<Rightarrow> windowSize (config b)
         | i # _ \<Rightarrow> max 0 (timestamp (h ! i) + windowSize (config b) - now'))"

definition wait_spec :: "int \<Rightarrow> int \<Rightarrow> TokenBucket \<Rightarrow> int" where
  "wait_spec now tokenCount b =
     (if windowUsage now b + tokenCount \<le> maxTokens (config b) then 0
      else walk_spec now now tokenCount b)"

section \<open>The parts of JavaScript strings and of cheerio that the code uses\<close>

subsection \<open>The document tree\<close>

text \<open>
  \<open>cheerio.load\<close> turns markup into a tree of elements and text; the model starts from
  that tree. An element has a tag name (as the parser leaves it), its attributes in
  source order and its children. Comments and the document type are not part of the
  tree: the pages considered have none.
\<close>

datatype node =
  Element string "(string \<times> string) list" "node list"
| Text string

subsection \<open>Strings\<close>

text \<open>
  A string is a list of characters, each one code unit below 256, so that \<open>length\<close>
  is the \<open>length\<close> of JavaScript; the letters that the code compares without regard to
  case are taken to be ASCII.
\<close>

fun startsWith :: "string \<Rightarrow> string \<Rightarrow> bool" where
  "startsWith s [] = True"
| "startsWith [] (c # p) = False"
| "startsWith (d # s) (c # p) = (d = c \<and> startsWith s p)"

fun includesStr :: "string \<Rightarrow> string \<Rightarrow> bool" where
  "includesStr [] t = (t = [])"
| "includesStr (c # s) t = (startsWith (c # s) t \<or> includesStr s t)"

text \<open>
  The white space of \<open>trim\<close> and of regular expressions among these characters:
  space, tab, line feed, vertical tab, form feed, carriage return and the no-break space.
\<close>

definition isSpace :: "char \<Rightarrow> bool" where
  "isSpace c =
     (c \<in> set [CHR '' '', CHR 0x09, CHR 0x0A, CHR 0x0B, CHR 0x0C, CHR 0x0D, CHR 0xA0])"

definition trim :: "string \<Rightarrow> string" where
  "trim s = rev (dropWhile isSpace (rev (dropWhile isSpace s)))"

definition toLowerChar :: "char \<Rightarrow> char" where
  "toLowerChar c =
     (case map_of (zip ''ABCDEFGHIJKLMNOPQRSTUVWXYZ'' ''abcdefghijklmnopqrstuvwxyz'') c of
        Some d \<Rightarrow> d
      | None \<Rightarrow> c)"

definition toLowerCase :: "string \<Rightarrow> string" where
  "toLowerCase s = map toLowerChar s"

text \<open>\<open>s.split(c)\<close> for a one-character separator: the pieces between the separators.\<close>

fun splitChar :: "char \<Rightarrow> string \<Rightarrow> string list" where
  "splitChar sep [] = [[]]"
| "splitChar sep (c # s) =
     (case splitChar sep s of
        piece # pieces \<Rightarrow> (if c = sep then [] # piece # pieces else (c # piece) # pieces)
      | [] \<Rightarrow> [[c]])"

text \<open>\<open>pieces.join(sep)\<close>.\<close>

fun joinWith :: "string \<Rightarrow> string list \<Rightarrow> string" where
  "joinWith sep [] = []"
| "joinWith sep [s] = s"
| "joinWith sep (s # t # rest) = s @ sep @ joinWith sep (t # rest)"

text \<open>The words of a \<open>class\<close> attribute: its pieces between white space.\<close>

fun classWords :: "string \<Rightarrow> string \<Rightarrow> string list" where
  "classWords cur [] = (if cur = [] then [] else [cur])"
| "classWords cur (c # s) =
     (if isSpace c then (if cur = [] then [] else [cur]) @ classWords [] s
      else classWords (cur @ [c]) s)"

text \<open>\<open>Math.ceil(n / 4)\<close> and \<open>Math.ceil(n / 3.5)\<close> on a length.\<close>

definition ceilDiv4 :: "nat \<Rightarrow> int" where
  "ceilDiv4 n = int ((n + 3) div 4)"

definition ceilDiv3_5 :: "nat \<Rightarrow> int" where
  "ceilDiv3_5 n = int ((2 * n + 6) div 7)"

subsection \<open>Elements, attributes and selectors\<close>

fun attr :: "string \<Rightarrow> node \<Rightarrow> string option" where
  "attr name (Element t as cs) = map_of as name"
| "attr name (Text s) = None"

text \<open>\<open>$el.attr(name) || ''\<close>.\<close>

definition attrOrEmpty :: "string \<Rightarrow> node \<Rightarrow> string" where
  "attrOrEmpty name n = (case attr name n of Some v \<Rightarrow> v | None \<Rightarrow> [])"

fun tagOf :: "node \<Rightarrow> string" where
  "tagOf (Element t as cs) = t"
| "tagOf (Text s) = []"

fun childrenOf :: "node \<Rightarrow> node list" where
  "childrenOf (Element t as cs) = cs"
| "childrenOf (Text s) = []"

fun isElement :: "node \<Rightarrow> bool" where
  "isElement (Element t as cs) = True"
| "isElement (Text s) = False"

text \<open>
  Selectors are kept parsed. A compound selector is an optional tag name with conditions
  on the attributes: \<open>.c\<close>, \<open>[a]\<close>, \<open>[a="v"]\<close>, \<open>[a*="v"]\<close>. A complex selector is a
  chain of compounds joined by the descendant combinator, and a selector is a comma
  list of chains.
\<close>

datatype cond =
  HasClass string
| HasAttr string
| AttrEquals string string
| AttrContains string string

datatype compound = Compound "string option" "cond list"

type_synonym selector = "compound list list"

abbreviation tag :: "string \<Rightarrow> compound" where
  "tag t \<equiv> Compound (Some t) []"

abbreviation cls :: "string \<Rightarrow> compound" where
  "cls c \<equiv> Compound None [HasClass c]"

fun matchesCond :: "cond \<Rightarrow> node \<Rightarrow> bool" where
  "matchesCond (HasClass c) n = (c \<in> set (classWords [] (attrOrEmpty ''class'' n)))"
| "matchesCond (HasAttr a) n = (attr a n \<noteq> None)"
| "matchesCond (AttrEquals a v) n = (attr a n = Some v)"
| "matchesCond (AttrContains a v) n =
     (case attr a n of Some w \<Rightarrow> v \<noteq> [] \<and> includesStr w v | None \<Rightarrow> False)"

fun matchesCompound :: "compound \<Rightarrow> node \<Rightarrow> bool" where
  "matchesCompound (Compound tg conds) (Element t as cs) =
     ((tg = None \<or> tg = Some t) \<and> list_all (\<lambda>c. matchesCond c (Element t as cs)) conds)"
| "matchesCompound (Compound tg conds) (Text s) = False"

text \<open>
  The rest of a chain, matched upwards: \<open>chain\<close> is what remains of the selector, last
  compound first, and \<open>ancs\<close> are the ancestors, nearest first.
\<close>

fun matchesUp :: "compound list \<Rightarrow> node list \<Rightarrow> bool" where
  "matchesUp [] ancs = True"
| "matchesUp (c # chain) [] = False"
| "matchesUp (c # chain) (a # ancs) =
     ((matchesCompound c a \<and> matchesUp chain ancs) \<or> matchesUp (c # chain) ancs)"

definition matchesChain :: "compound list \<Rightarrow> node \<Rightarrow> node list \<Rightarrow> bool" where
  "matchesChain chain n ancs =
     (case rev chain of
        [] \<Rightarrow> False
      | c # up \<Rightarrow> matchesCompound c n \<and> matchesUp up ancs)"

definition matchesSelector :: "selector \<Rightarrow> node \<Rightarrow> node list \<Rightarrow> bool" where
  "matchesSelector sel n ancs = list_ex (\<lambda>chain. matchesChain chain n ancs) sel"

subsection \<open>Documents\<close>

text \<open>
  A document is the list of the children of its root. A node is referred to by its
  path, the child indices from the root; the tree itself is never changed by the
  chunker, so paths stay valid. Unlinking a node from its parent (\<open>remove\<close>, or
  \<open>cheerio.load\<close> given a node, which moves the node under a new root) is recorded in
  \<open>cuts\<close>, the paths whose link to the parent is gone: a traversal from above skips them,
  while a reference held to an unlinked node still reaches the node and what is below it.
\<close>

type_synonym path = "nat list"

fun nodeAt :: "node list \<Rightarrow> path \<Rightarrow> node option" where
  "nodeAt ns [] = None"
| "nodeAt ns [i] = (if i < length ns then Some (ns ! i) else None)"
| "nodeAt ns (i # j # p) =
     (if i < length ns then nodeAt (childrenOf (ns ! i)) (j # p) else None)"

text \<open>The elements at and below a node, in document order, with their paths.\<close>

fun walk :: "path list \<Rightarrow> path \<Rightarrow> node \<Rightarrow> (path \<times> node) list"
  and walks :: "path list \<Rightarrow> path \<Rightarrow> nat \<Rightarrow> node list \<Rightarrow> (path \<times> node) list" where
  "walk cuts p (Text s) = []"
| "walk cuts p (Element t as cs) = (p, Element t as cs) # walks cuts p 0 cs"
| "walks cuts p i [] = []"
| "walks cuts p i (c # cs) =
     (if p @ [i] \<in> set cuts then [] else walk cuts (p @ [i]) c) @ walks cuts p (Suc i) cs"

text \<open>The ancestors of the node at a path, nearest first, up to the first unlinked node.\<close>

fun ancestors :: "path list \<Rightarrow> node list \<Rightarrow> path \<Rightarrow> (path \<times> node) list" where
  "ancestors cuts doc p =
     (if p = [] \<or> p \<in> set cuts then []
      else case nodeAt doc (butlast p) of
             None \<Rightarrow> []
           | Some parent \<Rightarrow> (butlast p, parent) # ancestors cuts doc (butlast p))"

declare ancestors.simps [simp del]

text \<open>\<open>$(selector)\<close>: the elements linked to the root that match, in document order.\<close>

definition select :: "path list \<Rightarrow> node list \<Rightarrow> selector \<Rightarrow> (path \<times> node) list" where
  "select cuts doc sel =
     [(p, n) \<leftarrow> walks cuts [] 0 doc. matchesSelector sel n (map snd (ancestors cuts doc p))]"

text \<open>\<open>$el.find(selector)\<close>: the matching elements below the element.\<close>

definition find_in :: "path list \<Rightarrow> node list \<Rightarrow> path \<times> node \<Rightarrow> selector \<Rightarrow> (path \<times> node) list" where
  "find_in cuts doc el sel =
     [(p, n) \<leftarrow> walks cuts (fst el) 0 (childrenOf (snd el)).
        matchesSelector sel n (map snd (ancestors cuts doc p))]"

text \<open>\<open>$el.closest(selector)\<close>: the element itself or its nearest ancestor that matches.\<close>

definition closest :: "path list \<Rightarrow> node list \<Rightarrow> path \<times> node \<Rightarrow> selector \<Rightarrow> (path \<times> node) option" where
  "closest cuts doc el sel =
     List.find (\<lambda>(p, n). matchesSelector sel n (map snd (ancestors cuts doc p)))
       (el # ancestors cuts doc (fst el))"

text \<open>\<open>selection.index(el)\<close>: the position of the element, or -1.\<close>

fun indexOf :: "path \<Rightarrow> (path \<times> node) list \<Rightarrow> int" where
  "indexOf p [] = -1"
| "indexOf p ((q, n) # rest) =
     (if p = q then 0 else (let i = indexOf p rest in if i < 0 then -1 else i + 1))"

subsection \<open>Serialisation\<close>

text \<open>
  \<open>$.html(el)\<close> and \<open>$el.html()\<close> as the HTML serialiser writes them: attributes as
  \<open>name="value"\<close>, no end tag and no content for a void element, \<open>&\<close>, \<open><\<close>, \<open>>\<close> escaped
  in text (except under a raw-text element) and \<open>&\<close>, \<open>"\<close> in attribute values.
\<close>

definition voidElements :: "string list" where
  "voidElements = [''area'', ''base'', ''basefont'', ''bgsound'', ''br'', ''col'', ''embed'',
     ''frame'', ''hr'', ''img'', ''input'', ''keygen'', ''link'', ''meta'', ''param'',
     ''source'', ''track'', ''wbr'']"

definition rawTextElements :: "string list" where
  "rawTextElements = [''style'', ''script'', ''xmp'', ''iframe'', ''noembed'', ''noframes'',
     ''plaintext'', ''noscript'']"

definition escapeText :: "string \<Rightarrow> string" where
  "escapeText s = concat (map (\<lambda>c. if c = CHR ''&'' then ''&amp;''
                                    else if c = CHR ''<'' then ''&lt;''
                                    else if c = CHR ''>'' then ''&gt;'' else [c]) s)"

definition escapeAttr :: "string \<Rightarrow> string" where
  "escapeAttr s = concat (map (\<lambda>c. if c = CHR ''&'' then ''&amp;''
                                    else if c = CHR 0x22 then ''&quot;'' else [c]) s)"

definition serializeAttrs :: "(string \<times> string) list \<Rightarrow> string" where
  "serializeAttrs as = concat (map (\<lambda>(k, v). '' '' @ k @ ''='' @ [CHR 0x22] @ escapeAttr v @ [CHR 0x22]) as)"

fun serializeNode :: "path list \<Rightarrow> string \<Rightarrow> path \<Rightarrow> node \<Rightarrow> string"
  and serializeChildren :: "path list \<Rightarrow> string \<Rightarrow> path \<Rightarrow> nat \<Rightarrow> node list \<Rightarrow> string" where
  "serializeNode cuts parent p (Text s) =
     (if parent \<in> set rawTextElements then s else escapeText s)"
| "serializeNode cuts parent p (Element t as cs) =
     ''<'' @ t @ serializeAttrs as @ ''>''
     @ (if t \<in> set voidElements then []
        else serializeChildren cuts t p 0 cs @ ''</'' @ t @ ''>'')"
| "serializeChildren cuts parent p i [] = []"
| "serializeChildren cuts parent p i (c # cs) =
     (if p @ [i] \<in> set cuts then [] else serializeNode cuts parent (p @ [i]) c)
     @ serializeChildren cuts parent p (Suc i) cs"

definition outerHTML :: "path list \<Rightarrow> path \<times> node \<Rightarrow> string" where
  "outerHTML cuts el = serializeNode cuts [] (fst el) (snd el)"

definition innerHTML :: "path list \<Rightarrow> path \<times> node \<Rightarrow> string" where
  "innerHTML cuts el = serializeChildren cuts (tagOf (snd el)) (fst el) 0 (childrenOf (snd el))"

text \<open>The node as a reference to it sees it: without the children that were unlinked.\<close>

fun prune :: "path list \<Rightarrow> path \<Rightarrow> node \<Rightarrow> node"
  and prunes :: "path list \<Rightarrow> path \<Rightarrow> nat \<Rightarrow> node list \<Rightarrow> node list" where
  "prune cuts p (Text s) = Text s"
| "prune cuts p (Element t as cs) = Element t as (prunes cuts p 0 cs)"
| "prunes cuts p i [] = []"
| "prunes cuts p i (c # cs) =
     (if p @ [i] \<in> set cuts then [] else [prune cuts (p @ [i]) c]) @ prunes cuts p (Suc i) cs"

text \<open>The text of a forest of markup: what the chunker calls \<open>html\<close>.\<close>

definition htmlText :: "node list \<Rightarrow> string" where
  "htmlText forest = serializeChildren [] [] [] 0 forest"

text \<open>
  \<open>cheerio.load(markup)\<close> on a fragment of body content: the parser supplies the
  \<open>html\<close>, \<open>head\<close> and \<open>body\<close> elements around it.
\<close>

definition loadMarkup :: "node list \<Rightarrow> node list" where
  "loadMarkup forest = [Element ''html'' [] [Element ''head'' [] [], Element ''body'' [] forest]]"


section \<open>Content chunker (src/utils/contentChunker.ts)\<close>

subsection \<open>Images and chunks\<close>

datatype Importance = Critical | Product | Hero | Decorative

datatype SectionType =
  TyHeader | TyNav | TyHero | TyMain | TyProduct | TyGallery | TyAside | TyFooter | TyMixed

datatype Priority = PCritical | PHigh | PMedium | PLow

text \<open>
  \<open>ImageInfo\<close>; its \<open>estimatedTokens\<close> is the field \<open>imageTokens\<close> here, since
  \<open>ContentChunk\<close> has a field of the same name, and its \<open>context\<close> is \<open>imgContext\<close>.
\<close>

record ImageInfo =
  src :: string
  alt :: string
  imageTokens :: int
  importance :: Importance
  imgContext :: string

text \<open>
  \<open>ContentChunk\<close>. The markup of a chunk is kept as the forest it parses to (\<open>html\<close>);
  its text is the serialisation of that forest. \<open>id\<close> and \<open>type\<close> are \<open>chunkId\<close> and
  \<open>ctype\<close>.
\<close>

record ContentChunk =
  chunkId :: string
  ctype :: SectionType
  html :: "node list"
  css :: string
  javascript :: string
  images :: "ImageInfo list"
  estimatedTokens :: int
  priority :: Priority
  preserveOrder :: bool

subsection \<open>Array.prototype.sort\<close>

text \<open>
  \<open>sort\<close> with a comparator is modelled as a stable insertion sort: the elements are
  taken from left to right and each is placed before the first element it compares
  below. For a consistent comparator every conforming engine returns this order.
\<close>

fun insertSorted :: "('a \<Rightarrow> 'a \<Rightarrow> int) \<Rightarrow> 'a \<Rightarrow> 'a list \<Rightarrow> 'a list" where
  "insertSorted cmp x [] = [x]"
| "insertSorted cmp x (y # ys) =
     (if cmp x y < 0 then x # y # ys else y # insertSorted cmp x ys)"

definition array_sort :: "('a \<Rightarrow> 'a \<Rightarrow> int) \<Rightarrow> 'a list \<Rightarrow> 'a list" where
  "array_sort cmp xs = foldl (\<lambda>sorted x. insertSorted cmp x sorted) [] xs"

fun priorityOrder :: "Priority \<Rightarrow> int" where
  "priorityOrder PCritical = 0"
| "priorityOrder PHigh = 1"
| "priorityOrder PMedium = 2"
| "priorityOrder PLow = 3"

text \<open>The comparator of \<open>sortChunksByPriority\<close>, with its early returns in order.\<close>

definition compareChunks :: "ContentChunk \<Rightarrow> ContentChunk \<Rightarrow> int" where
  "compareChunks a b =
     (let priorityDiff = priorityOrder (priority a) - priorityOrder (priority b)
      in if priorityDiff \<noteq> 0 then priorityDiff
         else if ctype a = TyHeader then -1
         else if ctype b = TyHeader then 1
         else if ctype a = TyFooter then 1
         else if ctype b = TyFooter then -1
         else 0)"

definition sortChunksByPriority :: "ContentChunk list \<Rightarrow> ContentChunk list" where
  "sortChunksByPriority chunks = array_sort compareChunks chunks"

subsection \<open>Image analysis\<close>

text \<open>
  \<open>ImageAnalysis\<close>; \<open>count\<close> and \<open>totalEstimatedTokens\<close> are \<open>imgCount\<close> and
  \<open>imgTotalTokens\<close>.
\<close>

record ImageAnalysis =
  imgCount :: nat
  imgTotalTokens :: int
  criticalImages :: "ImageInfo list"
  productImages :: "ImageInfo list"
  heroImages :: "ImageInfo list"
  decorativeImages :: "ImageInfo list"

definition CRITICAL_IMAGE_SELECTORS :: "compound list list" where
  "CRITICAL_IMAGE_SELECTORS =
     [[cls ''product'', tag ''img''],
      [cls ''product-image''],
      [cls ''product-photo''],
      [cls ''product-gallery'', tag ''img''],
      [cls ''shop'', tag ''img''],
      [cls ''catalog'', tag ''img''],
      [cls ''item-image''],
      [Compound None [HasAttr ''data-product-image'']],
      [cls ''hero'', tag ''img''],
      [cls ''hero-image''],
      [cls ''banner'', tag ''img''],
      [cls ''main-image'']]"

fun SECTION_SELECTORS :: "SectionType \<Rightarrow> selector" where
  "SECTION_SELECTORS TyHeader =
     [[tag ''header''], [cls ''header''], [cls ''site-header''], [cls ''main-header''],
      [Compound None [AttrEquals ''role'' ''banner'']]]"
| "SECTION_SELECTORS TyNav =
     [[tag ''nav''], [cls ''nav''], [cls ''navigation''], [cls ''navbar''], [cls ''menu''],
      [Compound None [AttrEquals ''role'' ''navigation'']]]"
| "SECTION_SELECTORS TyHero =
     [[cls ''hero''], [cls ''hero-section''], [cls ''banner''], [cls ''jumbotron''],
      [cls ''intro-section'']]"
| "SECTION_SELECTORS TyMain =
     [[tag ''main''], [cls ''main''], [cls ''main-content''], [cls ''content''],
      [Compound None [AttrEquals ''role'' ''main'']]]"
| "SECTION_SELECTORS TyProduct =
     [[cls ''product''], [cls ''products''], [cls ''shop''], [cls ''catalog''], [cls ''items''],
      [cls ''product-grid''], [cls ''product-list'']]"
| "SECTION_SELECTORS TyGallery =
     [[cls ''gallery''], [cls ''photo-gallery''], [cls ''image-gallery''], [cls ''portfolio'']]"
| "SECTION_SELECTORS TyAside =
     [[tag ''aside''], [cls ''aside''], [cls ''sidebar''], [cls ''side-content''],
      [Compound None [AttrEquals ''role'' ''complementary'']]]"
| "SECTION_SELECTORS TyFooter =
     [[tag ''footer''], [cls ''footer''], [cls ''site-footer''], [cls ''main-footer''],
      [Compound None [AttrEquals ''role'' ''contentinfo'']]]"
| "SECTION_SELECTORS TyMixed = []"

definition productKeywords :: "string list" where
  "productKeywords = [''product'', ''item'', ''shop'', ''buy'', ''catalog'', ''store'']"

definition heroKeywords :: "string list" where
  "heroKeywords = [''hero'', ''banner'', ''main'', ''featured'', ''primary'']"

text \<open>
  One turn of the loop over \<open>CRITICAL_IMAGE_SELECTORS\<close>: \<open>$img.is(selector)\<close>, or a
  self-or-ancestor matching the selector's first compound (\<open>selector.split(' ')[0]\<close>).
\<close>

definition criticalSelectorHit :: "node list \<Rightarrow> path \<times> node \<Rightarrow> compound list \<Rightarrow> bool" where
  "criticalSelectorHit doc img selector =
     (matchesChain selector (snd img) (map snd (ancestors [] doc (fst img)))
      \<or> closest [] doc img [[hd selector]] \<noteq> None)"

definition keywordHit :: "string list \<Rightarrow> string \<Rightarrow> string \<Rightarrow> string \<Rightarrow> bool" where
  "keywordHit keywords altText className ctx =
     list_ex (\<lambda>keyword. includesStr (toLowerCase altText) keyword
                        \<or> includesStr (toLowerCase className) keyword
                        \<or> includesStr (toLowerCase ctx) keyword) keywords"

text \<open>\<open>$img.closest('body').find('img').index($img)\<close>.\<close>

definition imagePosition :: "node list \<Rightarrow> path \<times> node \<Rightarrow> int" where
  "imagePosition doc img =
     (case closest [] doc img [[tag ''body'']] of
        None \<Rightarrow> indexOf (fst img) []
      | Some body \<Rightarrow> indexOf (fst img) (find_in [] doc body [[tag ''img'']]))"

definition classifyImageImportance :: "node list \<Rightarrow> path \<times> node \<Rightarrow> string \<Rightarrow> Importance" where
  "classifyImageImportance doc img ctx =
     (let source = attrOrEmpty ''src'' (snd img);
          altText = attrOrEmpty ''alt'' (snd img);
          className = attrOrEmpty ''class'' (snd img)
      in if startsWith source ''data:image/'' \<and> length source > 50000 then Critical
         else if list_ex (criticalSelectorHit doc img) CRITICAL_IMAGE_SELECTORS then Critical
         else if keywordHit productKeywords altText className ctx then Product
         else if keywordHit heroKeywords altText className ctx then Hero
         else if imagePosition doc img < 3 \<and> length source > 10000 then Hero
         else Decorative)"

definition estimateImageTokens :: "string \<Rightarrow> string \<Rightarrow> int" where
  "estimateImageTokens source ctx =
     (if startsWith source ''data:image/'' then ceilDiv3_5 (length source)
      else ceilDiv4 (length source + length ctx))"

definition contextSelector :: selector where
  "contextSelector =
     [[Compound None [AttrContains ''class'' ''product'']],
      [Compound None [AttrContains ''class'' ''hero'']],
      [Compound None [AttrContains ''class'' ''gallery'']],
      [tag ''section''], [tag ''div'']]"

text \<open>The body of \<open>$('img').each\<close>: nothing for an image without \<open>src\<close>.\<close>

definition imageInfoOf :: "node list \<Rightarrow> path \<times> node \<Rightarrow> ImageInfo list" where
  "imageInfoOf doc img =
     (let source = attrOrEmpty ''src'' (snd img);
          altText = attrOrEmpty ''alt'' (snd img)
      in if source = [] then []
         else
           let ctx = (case closest [] doc img contextSelector of
                        Some el \<Rightarrow> innerHTML [] el
                      | None \<Rightarrow> []);
               tokens = estimateImageTokens source ctx;
               imp = classifyImageImportance doc img ctx
           in [\<lparr>src = source, alt = altText, imageTokens = tokens, importance = imp,
                imgContext = take 200 ctx\<rparr>])"

definition analyzeImages :: "node list \<Rightarrow> ImageAnalysis" where
  "analyzeImages doc =
     (let imgs = concat (map (imageInfoOf doc) (select [] doc [[tag ''img'']]))
      in \<lparr>imgCount = length imgs,
          imgTotalTokens = foldl (\<lambda>total img. total + imageTokens img) 0 imgs,
          criticalImages = filter (\<lambda>img. importance img = Critical) imgs,
          productImages = filter (\<lambda>img. importance img = Product) imgs,
          heroImages = filter (\<lambda>img. importance img = Hero) imgs,
          decorativeImages = filter (\<lambda>img. importance img = Decorative) imgs\<rparr>)"

subsection \<open>Chunking\<close>

text \<open>A number in decimal, for the chunk identifiers.\<close>

fun decimal :: "nat \<Rightarrow> string" where
  "decimal n =
     (if n < 10 then [''0123456789'' ! n]
      else decimal (n div 10) @ [''0123456789'' ! (n mod 10)])"

declare decimal.simps [simp del]

text \<open>
  \<open>extractRelevantCSS\<close>. Its loop hands every element of the section to
  \<open>cheerio.load\<close>, which unlinks the element from its parent; the second component is
  the set of unlinked paths after the call.
\<close>

definition cssRuleApplies :: "string list \<Rightarrow> string list \<Rightarrow> string \<Rightarrow> bool" where
  "cssRuleApplies classNames ids sel =
     (list_ex (\<lambda>className. includesStr sel (''.'' @ className)) classNames
      \<or> list_ex (\<lambda>i. includesStr sel (''#'' @ i)) ids
      \<or> includesStr sel ''body''
      \<or> includesStr sel ''*''
      \<or> includesStr sel ''@'')"

definition extractRelevantCSS :: "string \<Rightarrow> path list \<Rightarrow> path \<times> node \<Rightarrow> string \<times> path list" where
  "extractRelevantCSS cssText cuts section =
     (if cssText = [] then ([], cuts)
      else
        let els = walk cuts (fst section) (snd section);
            classNames = concat (map (\<lambda>(p, e).
                case attr ''class'' e of
                  Some className \<Rightarrow>
                    (if className \<noteq> [] then filter (\<lambda>c. trim c \<noteq> []) (splitChar CHR '' '' className)
                     else [])
                | None \<Rightarrow> []) els);
            ids = concat (map (\<lambda>(p, e).
                case attr ''id'' e of
                  Some i \<Rightarrow> (if i \<noteq> [] then [i] else [])
                | None \<Rightarrow> []) els);
            cssRules = filter (\<lambda>rule. trim rule \<noteq> []) (splitChar CHR ''}'' cssText);
            relevantCSS = concat (map (\<lambda>rule.
                let sel = trim (hd (splitChar CHR ''{'' rule))
                in if sel = [] then []
                   else if cssRuleApplies classNames ids sel then [rule @ ''}''] else []) cssRules)
        in (joinWith [CHR 0x0A] relevantCSS, rev (map fst els) @ cuts))"

definition extractRelevantJS :: "string \<Rightarrow> string" where
  "extractRelevantJS js = (if js = [] then [] else if length js > 10000 then [] else js)"

definition estimateTokens :: "string \<Rightarrow> int" where
  "estimateTokens content = ceilDiv4 (length content)"

text \<open>The working state of \<open>chunkContent\<close>: the unlinked paths, the chunks pushed so far, the next identifier.\<close>

record ChunkerState =
  stCuts :: "path list"
  stChunks :: "ContentChunk list"
  stChunkId :: nat

definition allImages :: "ImageAnalysis \<Rightarrow> ImageInfo list" where
  "allImages a = criticalImages a @ productImages a @ heroImages a @ decorativeImages a"

text \<open>The images found in a section: each \<open>img\<close> with a \<open>src\<close> that the analysis knows.\<close>

definition sectionImagesOf :: "ImageAnalysis \<Rightarrow> path list \<Rightarrow> node list \<Rightarrow> path \<times> node \<Rightarrow> ImageInfo list" where
  "sectionImagesOf analysis cuts doc section =
     concat (map (\<lambda>(p, imgElement).
        let source = attrOrEmpty ''src'' imgElement
        in if source \<noteq> [] then
             (case List.find (\<lambda>img. src img = source) (allImages analysis) of
                Some existingImage \<Rightarrow> [existingImage]
              | None \<Rightarrow> [])
           else []) (find_in cuts doc section [[tag ''img'']]))"

definition sectionPriority :: "ImageInfo list \<Rightarrow> SectionType \<Rightarrow> Priority" where
  "sectionPriority sectionImages sectionType =
     (if list_ex (\<lambda>img. importance img = Critical \<or> importance img = Product) sectionImages
      then PCritical
      else if list_ex (\<lambda>img. importance img = Hero) sectionImages \<or> sectionType = TyHero
      then PHigh
      else if sectionType = TyFooter \<or> sectionType = TyNav then PLow
      else PMedium)"

text \<open>The body of \<open>$sections.each\<close>.\<close>

definition processSection ::
  "string \<Rightarrow> string \<Rightarrow> ImageAnalysis \<Rightarrow> node list \<Rightarrow> SectionType \<Rightarrow> ChunkerState
   \<Rightarrow> path \<times> node \<Rightarrow> ChunkerState" where
  "processSection cssText js analysis doc sectionType st section =
     (let sectionHtml = outerHTML (stCuts st) section
      in if sectionHtml = [] \<or> length sectionHtml < 50 then st
         else
           let sectionImages = sectionImagesOf analysis (stCuts st) doc section;
               sectionTokens = ceilDiv4 (length sectionHtml)
                 + foldl (\<lambda>sum img. sum + imageTokens img) 0 sectionImages;
               sectionMarkup = prune (stCuts st) (fst section) (snd section);
               (sectionCss, cuts1) = extractRelevantCSS cssText (stCuts st) section;
               chunk = \<lparr>chunkId = ''chunk-'' @ decimal (stChunkId st),
                        ctype = sectionType,
                        html = [sectionMarkup],
                        css = sectionCss,
                        javascript = extractRelevantJS js,
                        images = sectionImages,
                        estimatedTokens = sectionTokens,
                        priority = sectionPriority sectionImages sectionType,
                        preserveOrder = (sectionType = TyHeader \<or> sectionType = TyFooter)\<rparr>
           in \<lparr>stCuts = fst section # cuts1,
               stChunks = stChunks st @ [chunk],
               stChunkId = Suc (stChunkId st)\<rparr>)"

definition sectionTypes :: "SectionType list" where
  "sectionTypes = [TyHeader, TyNav, TyHero, TyMain, TyProduct, TyGallery, TyAside, TyFooter]"

text \<open>One turn of the loop over \<open>sectionTypes\<close>: select, then run the body on each match.\<close>

definition extractSectionType ::
  "string \<Rightarrow> string \<Rightarrow> ImageAnalysis \<Rightarrow> node list \<Rightarrow> ChunkerState \<Rightarrow> SectionType \<Rightarrow> ChunkerState" where
  "extractSectionType cssText js analysis doc st sectionType =
     foldl (processSection cssText js analysis doc sectionType) st
       (select (stCuts st) doc (SECTION_SELECTORS sectionType))"

definition extractSections :: "string \<Rightarrow> string \<Rightarrow> ImageAnalysis \<Rightarrow> node list \<Rightarrow> ChunkerState" where
  "extractSections cssText js analysis doc =
     foldl (extractSectionType cssText js analysis doc)
       \<lparr>stCuts = [], stChunks = [], stChunkId = 1\<rparr> sectionTypes"

text \<open>\<open>$('body').html() || ''\<close> after the extractions, and the forest it is the text of.\<close>

definition remainingHtml :: "node list \<Rightarrow> string \<Rightarrow> string \<Rightarrow> string" where
  "remainingHtml doc cssText js =
     (let st = extractSections cssText js (analyzeImages doc) doc
      in case select (stCuts st) doc [[tag ''body'']] of
           [] \<Rightarrow> []
         | body # _ \<Rightarrow> innerHTML (stCuts st) body)"

definition remainingMarkup :: "node list \<Rightarrow> string \<Rightarrow> string \<Rightarrow> node list" where
  "remainingMarkup doc cssText js =
     (let st = extractSections cssText js (analyzeImages doc) doc
      in case select (stCuts st) doc [[tag ''body'']] of
           [] \<Rightarrow> []
         | body # _ \<Rightarrow> prunes (stCuts st) (fst body) 0 (childrenOf (snd body)))"

text \<open>The chunk for what remains, when it is long enough.\<close>

definition mixedChunks :: "node list \<Rightarrow> string \<Rightarrow> string \<Rightarrow> ContentChunk list" where
  "mixedChunks doc cssText js =
     (let st = extractSections cssText js (analyzeImages doc) doc;
          remaining = remainingHtml doc cssText js
      in if length (trim remaining) > 100 then
           (let remainingImages = filter (\<lambda>img. includesStr remaining (src img))
                                    (decorativeImages (analyzeImages doc));
                remainingTokens = ceilDiv4 (length remaining)
                  + foldl (\<lambda>sum img. sum + imageTokens img) 0 remainingImages
            in [\<lparr>chunkId = ''chunk-'' @ decimal (stChunkId st),
                 ctype = TyMixed,
                 html = remainingMarkup doc cssText js,
                 css = cssText,
                 javascript = js,
                 images = remainingImages,
                 estimatedTokens = remainingTokens,
                 priority = PLow,
                 preserveOrder = False\<rparr>])
         else [])"

text \<open>
  \<open>ChunkingResult\<close>, without its \<open>metadata\<close> (sizes of the input text and a
  floating-point ratio, which no chunk depends on).
\<close>

record ChunkingResult =
  chunks :: "ContentChunk list"
  totalEstimatedTokens :: int
  imageAnalysis :: ImageAnalysis

definition chunkContent :: "node list \<Rightarrow> string \<Rightarrow> string \<Rightarrow> ChunkingResult" where
  "chunkContent doc cssText js =
     (let analysis = analyzeImages doc;
          st = extractSections cssText js analysis doc;
          pushed = stChunks st @ mixedChunks doc cssText js
      in \<lparr>chunks = sortChunksByPriority pushed,
          totalEstimatedTokens = foldl (\<lambda>sum chunk. sum + estimatedTokens chunk) 0 pushed,
          imageAnalysis = analysis\<rparr>)"

subsection \<open>Splitting oversized chunks\<close>

text \<open>
  The inner loop of \<open>splitOversizedChunks\<close> over the sub-sections of one chunk.
  \<open>cheerio.load(subSection)\<close> unlinks the sub-section before it is serialised.
\<close>

fun splitLoop ::
  "ContentChunk \<Rightarrow> int \<Rightarrow> path list \<Rightarrow> nat \<Rightarrow> (path \<times> node) list \<Rightarrow> ContentChunk list" where
  "splitLoop chunk maxTokensPerChunk cuts subChunkId [] = []"
| "splitLoop chunk maxTokensPerChunk cuts subChunkId (subSection # rest) =
     (let cuts1 = fst subSection # cuts;
          subHtml = outerHTML cuts1 subSection;
          subTokens = estimateTokens subHtml
      in if subTokens \<le> maxTokensPerChunk then
           chunk\<lparr>chunkId := chunkId chunk @ ''-sub-'' @ decimal subChunkId,
                 html := [prune cuts1 (fst subSection) (snd subSection)],
                 estimatedTokens := subTokens,
                 images := filter (\<lambda>img. includesStr subHtml (src img)) (images chunk)\<rparr>
           # splitLoop chunk maxTokensPerChunk cuts1 (Suc subChunkId) rest
         else splitLoop chunk maxTokensPerChunk cuts1 subChunkId rest)"

definition splitChunk :: "int \<Rightarrow> ContentChunk \<Rightarrow> ContentChunk list" where
  "splitChunk maxTokensPerChunk chunk =
     (if estimatedTokens chunk \<le> maxTokensPerChunk then [chunk]
      else
        let subSections = select [] (loadMarkup (html chunk))
                            [[tag ''section''], [tag ''article''], [tag ''div'']]
        in if length subSections > 1
           then splitLoop chunk maxTokensPerChunk [] 1 subSections
           else [chunk])"

definition splitOversizedChunks :: "ContentChunk list \<Rightarrow> int \<Rightarrow> ContentChunk list" where
  "splitOversizedChunks chunkList maxTokensPerChunk =
     concat (map (splitChunk maxTokensPerChunk) chunkList)"

section \<open>Model router (src/utils/modelRouter.ts)\<close>

datatype Model = GPT5 | GPT4o | GPT4Turbo | GPT4

fun modelName :: "Model \<Rightarrow> string" where
  "modelName GPT5 = ''gpt-5''"
| "modelName GPT4o = ''gpt-4o''"
| "modelName GPT4Turbo = ''gpt-4-turbo''"
| "modelName GPT4 = ''gpt-4''"

text \<open>
  \<open>ModelSelection\<close> without its \<open>reasoning\<close> text, which no decision reads; its
  \<open>estimatedTokens\<close>, \<open>canProcess\<close> and \<open>waitTime\<close> are \<open>selTokens\<close>, \<open>selCanProcess\<close>
  and \<open>selWaitTime\<close>.
\<close>

record ModelSelection =
  model :: Model
  selTokens :: int
  selCanProcess :: bool
  selWaitTime :: int

record RoutingStrategy =
  strategyName :: string
  description :: string
  gpt5Budget :: int
  gpt4oBudget :: int
  bufferTokens :: int

definition getDefaultStrategy :: RoutingStrategy where
  "getDefaultStrategy =
     \<lparr>strategyName = ''Image-Preserving Hybrid'',
      description = ''GPT-5 for critical images, GPT-4o for text content'',
      gpt5Budget = 20000, gpt4oBudget = 10000, bufferTokens = 3000\<rparr>"

text \<open>
  \<open>imageTokenRatio\<close> is a quotient of two numbers; a zero divisor gives an infinity or
  \<open>NaN\<close>, and every comparison with \<open>NaN\<close> is false. The quotient is taken exactly.
\<close>

datatype quotient = Quot rat | PosInfinity | NegInfinity | NaN

definition js_divide :: "int \<Rightarrow> int \<Rightarrow> quotient" where
  "js_divide a b =
     (if b \<noteq> 0 then Quot (of_int a / of_int b)
      else if a > 0 then PosInfinity
      else if a < 0 then NegInfinity
      else NaN)"

fun quotient_less :: "quotient \<Rightarrow> rat \<Rightarrow> bool" where
  "quotient_less (Quot q) r = (q < r)"
| "quotient_less NegInfinity r = True"
| "quotient_less PosInfinity r = False"
| "quotient_less NaN r = False"

fun quotient_greater :: "quotient \<Rightarrow> rat \<Rightarrow> bool" where
  "quotient_greater (Quot q) r = (q > r)"
| "quotient_greater PosInfinity r = True"
| "quotient_greater NegInfinity r = False"
| "quotient_greater NaN r = False"

record ChunkRoutingAnalysis =
  imageCount :: nat
  hasCriticalImages :: bool
  hasProductImages :: bool
  hasHeroImages :: bool
  imageTokenRatio :: quotient
  isTextHeavy :: bool
  isImageHeavy :: bool
  chunkType :: SectionType
  analysisPriority :: Priority

definition analyzeChunkForRouting :: "ContentChunk \<Rightarrow> ChunkRoutingAnalysis" where
  "analyzeChunkForRouting chunk =
     (let ratio = js_divide (foldl (\<lambda>sum img. sum + imageTokens img) 0 (images chunk))
                            (estimatedTokens chunk)
      in \<lparr>imageCount = length (images chunk),
          hasCriticalImages = list_ex (\<lambda>img. importance img = Critical) (images chunk),
          hasProductImages = list_ex (\<lambda>img. importance img = Product) (images chunk),
          hasHeroImages = list_ex (\<lambda>img. importance img = Hero) (images chunk),
          imageTokenRatio = ratio,
          isTextHeavy = quotient_less ratio (3 / 10),
          isImageHeavy = quotient_greater ratio (7 / 10),
          chunkType = ctype chunk,
          analysisPriority = priority chunk\<rparr>)"

definition selectOptimalModel :: "ChunkRoutingAnalysis \<Rightarrow> Model" where
  "selectOptimalModel analysis =
     (if hasCriticalImages analysis \<or> hasProductImages analysis then GPT5
      else if hasHeroImages analysis \<or> analysisPriority analysis = PHigh then GPT5
      else if isImageHeavy analysis \<and> imageCount analysis > 2 then GPT5
      else if isTextHeavy analysis \<or> chunkType analysis = TyFooter \<or> chunkType analysis = TyNav
      then GPT4o
      else GPT4o)"

text \<open>
  The two calls on the shared \<open>rateLimiter\<close> that close every routing decision:
  \<open>canProcess\<close>, then \<open>waitTimeForTokens\<close> when it said no. The manager is threaded
  through. One decision reads the clock up to four times: once in \<open>canProcess\<close> and up
  to three times in \<open>waitTimeForTokens\<close>.
\<close>

type_synonym readings = "int \<times> int \<times> int \<times> int"

definition limiterCheck ::
  "readings \<Rightarrow> ContentChunk \<Rightarrow> Model \<Rightarrow> RateLimiterManager \<Rightarrow> ModelSelection \<times> RateLimiterManager" where
  "limiterCheck ticks chunk selectedModel limiter =
     (let (now0, now1, now2, now3) = ticks;
          (ok, limiter1) =
            RateLimiterManager_canProcess now0 (estimatedTokens chunk) (modelName selectedModel) limiter;
          (wait, limiter2) =
            (if ok then (0, limiter1)
             else RateLimiterManager_waitTimeForTokens now1 now2 now3 (estimatedTokens chunk)
                    (modelName selectedModel) limiter1)
      in (\<lparr>model = selectedModel, selTokens = estimatedTokens chunk,
           selCanProcess = ok, selWaitTime = wait\<rparr>, limiter2))"

definition routeContentChunk ::
  "readings \<Rightarrow> ContentChunk \<Rightarrow> RateLimiterManager \<Rightarrow> ModelSelection \<times> RateLimiterManager" where
  "routeContentChunk ticks chunk limiter =
     (let routing = analyzeChunkForRouting chunk;
          selected = selectOptimalModel routing
      in limiterCheck ticks chunk selected limiter)"

definition getNumericPriority :: "ContentChunk \<Rightarrow> int" where
  "getNumericPriority chunk = priorityOrder (priority chunk)"

text \<open>
  The body of the \<open>for\<close> loop of \<open>routeMultipleChunks\<close>: the model chosen for one chunk
  and the two running totals after it.
\<close>

definition chooseModel :: "RoutingStrategy \<Rightarrow> ContentChunk \<Rightarrow> int \<Rightarrow> int \<Rightarrow> Model \<times> int \<times> int" where
  "chooseModel strategy chunk gpt5TokensUsed gpt4oTokensUsed =
     (let routing = analyzeChunkForRouting chunk
      in if hasCriticalImages routing \<or> hasProductImages routing then
           (if gpt5TokensUsed + estimatedTokens chunk \<le> gpt5Budget strategy
            then (GPT5, gpt5TokensUsed + estimatedTokens chunk, gpt4oTokensUsed)
            else (GPT5, gpt5TokensUsed + estimatedTokens chunk, gpt4oTokensUsed))
         else if hasHeroImages routing
                 \<and> gpt5TokensUsed + estimatedTokens chunk \<le> gpt5Budget strategy then
           (GPT5, gpt5TokensUsed + estimatedTokens chunk, gpt4oTokensUsed)
         else if gpt4oTokensUsed + estimatedTokens chunk \<le> gpt4oBudget strategy then
           (GPT4o, gpt5TokensUsed, gpt4oTokensUsed + estimatedTokens chunk)
         else if imageCount routing > 0 then
           (GPT5, gpt5TokensUsed + estimatedTokens chunk, gpt4oTokensUsed)
         else
           (GPT4o, gpt5TokensUsed, gpt4oTokensUsed + estimatedTokens chunk))"

text \<open>
  The loop itself. The routing map is the list of its entries in insertion order; the
  chunks of one list are distinct objects, so every \<open>set\<close> adds an entry. \<open>clock k\<close>
  holds the readings of the clock in turn \<open>k\<close> of the loop.
\<close>

fun routeLoop ::
  "RoutingStrategy \<Rightarrow> (nat \<Rightarrow> readings) \<Rightarrow> ContentChunk list \<Rightarrow> int \<Rightarrow> int \<Rightarrow> RateLimiterManager
   \<Rightarrow> (ContentChunk \<times> ModelSelection) list \<times> RateLimiterManager" where
  "routeLoop strategy clock [] gpt5TokensUsed gpt4oTokensUsed limiter = ([], limiter)"
| "routeLoop strategy clock (chunk # rest) gpt5TokensUsed gpt4oTokensUsed limiter =
     (let (selectedModel, gpt5', gpt4o') = chooseModel strategy chunk gpt5TokensUsed gpt4oTokensUsed;
          (selection, limiter1) = limiterCheck (clock 0) chunk selectedModel limiter;
          (entries, limiter2) = routeLoop strategy (\<lambda>k. clock (Suc k)) rest gpt5' gpt4o' limiter1
      in ((chunk, selection) # entries, limiter2))"

definition routeMultipleChunks ::
  "RoutingStrategy \<Rightarrow> (nat \<Rightarrow> readings) \<Rightarrow> ContentChunk list \<Rightarrow> RateLimiterManager
   \<Rightarrow> (ContentChunk \<times> ModelSelection) list \<times> RateLimiterManager" where
  "routeMultipleChunks strategy clock chunkList limiter =
     (let sortedChunks = array_sort (\<lambda>a b. getNumericPriority a - getNumericPriority b) chunkList
      in routeLoop strategy clock sortedChunks 0 0 limiter)"

text \<open>What the claims call a chunk with a critical or product image.\<close>

definition hasCriticalOrProduct :: "ContentChunk \<Rightarrow> bool" where
  "hasCriticalOrProduct chunk =
     list_ex (\<lambda>img. importance img = Critical \<or> importance img = Product) (images chunk)"

subsection \<open>Concrete buckets used to exercise the theorems\<close>

text \<open>The limiter of the specification's example: 1000 tokens per 60000 ms.\<close>

definition bucket1k :: TokenBucket where
  "bucket1k = TokenBucket_new \<lparr>maxTokens = 1000, refillRate = 16, windowSize = 60000\<rparr>"

definition bucket1k_used :: TokenBucket where
  "bucket1k_used = consumeTokens 0 0 900 bucket1k"

text \<open>
  The order the comparator of \<open>sortChunksByPriority\<close> induces, as a number: the
  priority first, then header before the other types before footer.
\<close>

definition chunkRank :: "ContentChunk \<Rightarrow> int" where
  "chunkRank c = 3 * priorityOrder (priority c)
     + (if ctype c = TyHeader then 0 else if ctype c = TyFooter then 2 else 1)"

subsection \<open>Concrete chunks used to exercise the theorems\<close>

definition criticalImage :: ImageInfo where
  "criticalImage = \<lparr>src = ''shoe.png'', alt = ''shoe'', imageTokens = 2000,
     importance = Critical, imgContext = []\<rparr>"

definition productImage :: ImageInfo where
  "productImage = \<lparr>src = ''bag.png'', alt = ''product bag'', imageTokens = 2000,
     importance = Product, imgContext = []\<rparr>"

text \<open>Two chunks that together overrun the default gpt-5 budget of 20000 tokens.\<close>

definition chunkA :: ContentChunk where
  "chunkA = \<lparr>chunkId = ''chunk-1'', ctype = TyProduct, html = [], css = [], javascript = [],
     images = [criticalImage], estimatedTokens = 19000, priority = PCritical,
     preserveOrder = False\<rparr>"

definition chunkB :: ContentChunk where
  "chunkB = \<lparr>chunkId = ''chunk-2'', ctype = TyGallery, html = [], css = [], javascript = [],
     images = [productImage], estimatedTokens = 5000, priority = PCritical,
     preserveOrder = False\<rparr>"

subsection \<open>Concrete documents used to exercise the theorems\<close>

text \<open>A paragraph and a featured image, outside every section.\<close>

definition docLooseImage :: "node list" where
  "docLooseImage = loadMarkup
     [Element ''p'' []
        [Text ''Our summer collection has arrived and it is the largest one we have ever put together for you''],
      Element ''img'' [(''src'', ''summer.png''), (''alt'', ''featured look'')] []]"

text \<open>A header, a main section, a product section and a footer that shows a payment image.\<close>

definition docShop :: "node list" where
  "docShop = loadMarkup
     [Element ''header'' []
        [Element ''h1'' [] [Text ''Welcome to the shop of many things and more'']],
      Element ''main'' []
        [Element ''p'' [] [Text ''A long paragraph of text about our story and values'']],
      Element ''div'' [(''class'', ''product'')]
        [Element ''img'' [(''src'', ''shoe.png''), (''alt'', ''A shoe'')] [],
         Element ''p'' [] [Text ''The best shoe for running and walking'']],
      Element ''footer'' []
        [Element ''img'' [(''src'', ''pay.png''), (''alt'', ''buy with card'')] [],
         Element ''p'' [] [Text ''All rights reserved'']]]"

text \<open>A header and a short paragraph that no section claims.\<close>

definition docShortRest :: "node list" where
  "docShortRest = loadMarkup
     [Element ''header'' []
        [Element ''h1'' [] [Text ''Welcome to the shop of many things and more'']],
      Element ''p'' [] [Text ''hello'']]"

text \<open>A long paragraph that no section claims, and a footer.\<close>

definition docLongRest :: "node list" where
  "docLongRest = loadMarkup
     [Element ''p'' []
        [Text ''Our summer collection has arrived and it is the largest one we have ever put together for you this year''],
      Element ''footer'' []
        [Element ''p'' [] [Text ''All rights reserved, every single one of them'']]]"

text \<open>An image with a hero keyword in its alt text, inside a hero block.\<close>

definition docHero :: "node list" where
  "docHero = loadMarkup
     [Element ''div'' [(''class'', ''hero'')]
        [Element ''img'' [(''src'', ''sky.png''), (''alt'', ''hero shot'')] []]]"

text \<open>The same image without the block around it.\<close>

definition docHeroAlt :: "node list" where
  "docHeroAlt = loadMarkup
     [Element ''img'' [(''src'', ''sky.png''), (''alt'', ''hero shot'')] []]"

text \<open>A header with a logo next to two blocks of text.\<close>

definition docLogoHeader :: "node list" where
  "docLogoHeader = loadMarkup
     [Element ''header'' []
        [Element ''img'' [(''src'', ''logo.png'')] [],
         Element ''div'' [] [Text ''Fast delivery everywhere''],
         Element ''div'' [] [Text ''Open every day of the week'']]]"

text \<open>An image whose alt text has one of the other hero keywords.\<close>

definition docPrimaryAlt :: "node list" where
  "docPrimaryAlt = loadMarkup
     [Element ''img'' [(''src'', ''logo.png''), (''alt'', ''primary logo'')] []]"

subsection \<open>The rule list of the image classification, in words\<close>

text \<open>
  The structural contexts that make an image critical: the image or one of its
  ancestors carries one of these classes (product, shop and catalog contexts, and also
  hero and banner contexts), or the attribute \<open>data-product-image\<close>.
\<close>

definition criticalContexts :: "compound list" where
  "criticalContexts =
     [cls ''product'', cls ''product-image'', cls ''product-photo'', cls ''product-gallery'',
      cls ''shop'', cls ''catalog'', cls ''item-image'',
      Compound None [HasAttr ''data-product-image''],
      cls ''hero'', cls ''hero-image'', cls ''banner'', cls ''main-image'']"

definition inCriticalContext :: "node list \<Rightarrow> path \<times> node \<Rightarrow> bool" where
  "inCriticalContext doc img =
     list_ex (\<lambda>n. list_ex (\<lambda>c. matchesCompound c n) criticalContexts)
       (snd img # map snd (ancestors [] doc (fst img)))"

definition largeInlineImage :: "node \<Rightarrow> bool" where
  "largeInlineImage n =
     (startsWith (attrOrEmpty ''src'' n) ''data:image/'' \<and> 50000 < length (attrOrEmpty ''src'' n))"

text \<open>The images of the example documents, by their paths.\<close>

definition imgHero :: "path \<times> node" where
  "imgHero = ([0, 1, 0, 0], Element ''img'' [(''src'', ''sky.png''), (''alt'', ''hero shot'')] [])"

definition imgHeroAlt :: "path \<times> node" where
  "imgHeroAlt = ([0, 1, 0], Element ''img'' [(''src'', ''sky.png''), (''alt'', ''hero shot'')] [])"

section \<open>Content optimizer (src/utils/contentOptimization.ts)\<close>

text \<open>
  \<open>removeIrrelevantContent\<close> changes the tree, so it is modelled by functions from
  forests to forests. None of its selectors has a combinator: whether an element matches
  depends on the element alone.
\<close>

text \<open>The elements of a forest in document order: what \<open>$('*')\<close> selects.\<close>

fun elems :: "node \<Rightarrow> node list"
  and elemsL :: "node list \<Rightarrow> node list" where
  "elems (Text s) = []"
| "elems (Element t as cs) = Element t as cs # elemsL cs"
| "elemsL [] = []"
| "elemsL (c # cs) = elems c @ elemsL cs"

text \<open>\<open>$(selector)\<close> for a comma list of compound selectors.\<close>

definition selectNodes :: "compound list \<Rightarrow> node list \<Rightarrow> node list" where
  "selectNodes sel forest = filter (\<lambda>n. list_ex (\<lambda>c. matchesCompound c n) sel) (elemsL forest)"

text \<open>\<open>$el.find(selector)\<close>: the matching elements below the element.\<close>

definition findNodes :: "compound list \<Rightarrow> node \<Rightarrow> node list" where
  "findNodes sel n = selectNodes sel (childrenOf n)"

definition IRRELEVANT_SELECTORS :: "compound list" where
  "IRRELEVANT_SELECTORS =
     [Compound (Some ''script'') [AttrContains ''src'' ''analytics''],
      Compound (Some ''script'') [AttrContains ''src'' ''gtag''],
      Compound (Some ''script'') [AttrContains ''src'' ''facebook''],
      Compound (Some ''script'') [AttrContains ''src'' ''twitter''],
      Compound (Some ''script'') [AttrContains ''src'' ''linkedin''],
      Compound (Some ''script'') [AttrContains ''src'' ''hotjar''],
      Compound (Some ''script'') [AttrContains ''src'' ''optimizely''],
      Compound (Some ''script'') [AttrContains ''src'' ''segment''],
      Compound (Some ''script'') [AttrContains ''src'' ''mixpanel''],
      Compound (Some ''script'') [AttrContains ''src'' ''intercom''],
      Compound (Some ''script'') [AttrContains ''src'' ''zendesk''],
      Compound (Some ''script'') [AttrContains ''src'' ''livechat''],
      Compound (Some ''script'') [AttrContains ''src'' ''tawk.to''],
      cls ''intercom-frame'',
      cls ''zendesk-widget'',
      cls ''livechat-widget'',
      Compound None [AttrContains ''class'' ''cookie''],
      Compound None [AttrContains ''id'' ''cookie''],
      Compound None [AttrContains ''class'' ''gdpr''],
      Compound None [AttrContains ''class'' ''consent''],
      cls ''cookie-banner'',
      cls ''privacy-banner'',
      Compound (Some ''iframe'') [AttrContains ''src'' ''facebook.com/plugins''],
      Compound (Some ''iframe'') [AttrContains ''src'' ''twitter.com/widgets''],
      Compound (Some ''iframe'') [AttrContains ''src'' ''linkedin.com/widgets''],
      cls ''fb-like'',
      cls ''twitter-tweet'',
      cls ''linkedin-widget'',
      Compound None [AttrContains ''class'' ''ad-''],
      Compound None [AttrContains ''class'' ''ads-''],
      Compound None [AttrContains ''id'' ''ad-''],
      Compound None [AttrContains ''id'' ''ads-''],
      cls ''advertisement'',
      cls ''google-ads'',
      cls ''adsense'']"

text \<open>
  \<open>ANALYTICS_PATTERNS\<close>: each pattern is a literal text matched without regard to
  case, so a pattern is kept as that text in lower case.
\<close>

definition ANALYTICS_PATTERNS :: "string list" where
  "ANALYTICS_PATTERNS =
     [''google-analytics.com'', ''googletagmanager.com'', ''gtag('', ''ga('', ''_gaq'',
      ''facebook.net'', ''fbevents'', ''twitter.com/i/adsct'', ''linkedin.com/px-api'',
      ''hotjar.'', ''crazyegg.'', ''optimizely.'', ''segment.'', ''mixpanel.'', ''intercom.'',
      ''zendesk.'', ''livechat'', ''hubspot'']"

definition patternTest :: "string \<Rightarrow> string \<Rightarrow> bool" where
  "patternTest pattern s = includesStr (toLowerCase s) pattern"

text \<open>\<open>selection.remove()\<close> for the elements that satisfy \<open>P\<close>.\<close>

fun removeWhere :: "(node \<Rightarrow> bool) \<Rightarrow> node \<Rightarrow> node list"
  and removeWhereL :: "(node \<Rightarrow> bool) \<Rightarrow> node list \<Rightarrow> node list" where
  "removeWhere P (Text s) = [Text s]"
| "removeWhere P (Element t as cs) =
     (if P (Element t as cs) then [] else [Element t as (removeWhereL P cs)])"
| "removeWhereL P [] = []"
| "removeWhereL P (c # cs) = removeWhere P c @ removeWhereL P cs"

text \<open>\<open>$(selector).not('img').not(':has(img)')\<close>: what one cleanup selector removes.\<close>

definition irrelevant :: "compound \<Rightarrow> node \<Rightarrow> bool" where
  "irrelevant selector n =
     (matchesCompound selector n
      \<and> \<not> matchesCompound (tag ''img'') n
      \<and> findNodes [tag ''img''] n = [])"

text \<open>The test of the loop over \<open>$('script')\<close>.\<close>

definition isAnalytics :: "node \<Rightarrow> bool" where
  "isAnalytics n =
     (matchesCompound (tag ''script'') n
      \<and> (let source = attrOrEmpty ''src'' n;
              content = innerHTML [] ([], n)
          in list_ex (\<lambda>pattern. patternTest pattern source \<or> patternTest pattern content)
               ANALYTICS_PATTERNS))"

definition svgPlaceholder :: node where
  "svgPlaceholder =
     Element ''div'' [(''class'', ''svg-placeholder'')] [Text ''[Large SVG removed for optimization]'']"

text \<open>The loop over \<open>$('svg')\<close>: an \<open>svg\<close> longer than 10000 characters gives way to the placeholder.\<close>

fun replaceLargeSvg :: "node \<Rightarrow> node"
  and replaceLargeSvgL :: "node list \<Rightarrow> node list" where
  "replaceLargeSvg (Text s) = Text s"
| "replaceLargeSvg (Element t as cs) =
     (if t = ''svg'' \<and> length (outerHTML [] ([], Element t as cs)) > 10000 then svgPlaceholder
      else Element t as (replaceLargeSvgL cs))"
| "replaceLargeSvgL [] = []"
| "replaceLargeSvgL (c # cs) = replaceLargeSvg c # replaceLargeSvgL cs"

text \<open>
  \<open>$el.text()\<close>: the text at and below the element. Up to cheerio 1.0.0-rc.10 the
  method leaves out what lies below a \<open>script\<close> or \<open>style\<close> element; from 1.0.0-rc.11
  on it takes that text too. The sources do not fix the version of the library, so the
  behaviour is a parameter: \<open>scriptText\<close> is true when the text of scripts and styles
  counts.
\<close>

fun textOf :: "bool \<Rightarrow> node \<Rightarrow> string"
  and textOfL :: "bool \<Rightarrow> node list \<Rightarrow> string" where
  "textOf scriptText (Text s) = s"
| "textOf scriptText (Element t as cs) =
     (if \<not> scriptText \<and> (t = ''script'' \<or> t = ''style'') then [] else textOfL scriptText cs)"
| "textOfL scriptText [] = []"
| "textOfL scriptText (c # cs) = textOf scriptText c @ textOfL scriptText cs"

definition keptWhenEmpty :: "compound list" where
  "keptWhenEmpty = [tag ''img'', tag ''input'', tag ''br'', tag ''hr'', tag ''area'', tag ''base'',
     tag ''col'', tag ''embed'', tag ''source'', tag ''track'', tag ''wbr'']"

text \<open>The test of the loop that removes empty elements.\<close>

definition isEmptyElement :: "bool \<Rightarrow> node \<Rightarrow> bool" where
  "isEmptyElement scriptText n =
     (\<not> list_ex (\<lambda>c. matchesCompound c n) keptWhenEmpty
      \<and> trim (textOf scriptText n) = []
      \<and> findNodes [tag ''img'', tag ''input'', tag ''br'', tag ''hr''] n = [])"

text \<open>The \<open>src\<close> values that \<open>$('img').each\<close> collects: those that are not empty.\<close>

definition imgSrcs :: "node list \<Rightarrow> string list" where
  "imgSrcs forest =
     filter (\<lambda>s. s \<noteq> []) (map (attrOrEmpty ''src'') (selectNodes [tag ''img''] forest))"

text \<open>\<open>$('body').append(imageHtml)\<close>: the image becomes the last child of every body element.\<close>

fun appendToBody :: "node \<Rightarrow> node \<Rightarrow> node"
  and appendToBodyL :: "node \<Rightarrow> node list \<Rightarrow> node list" where
  "appendToBody img (Text s) = Text s"
| "appendToBody img (Element t as cs) =
     Element t as (appendToBodyL img cs @ (if t = ''body'' then [img] else []))"
| "appendToBodyL img [] = []"
| "appendToBodyL img (c # cs) = appendToBody img c # appendToBodyL img cs"

text \<open>
  The stored \<open>html\<close> of an image, parsed again: an \<open>img\<close> element with the same
  attributes (a void element is written without content).
\<close>

definition reparseImage :: "node \<Rightarrow> node" where
  "reparseImage n = (case n of Element t as cs \<Rightarrow> Element t as [] | Text s \<Rightarrow> Text s)"

text \<open>One turn of the loop that restores missing images.\<close>

definition restoreImage :: "string list \<Rightarrow> node list \<Rightarrow> node \<Rightarrow> node list" where
  "restoreImage currentImages forest stored =
     (let img = reparseImage stored;
          source = attrOrEmpty ''src'' img
      in if source \<noteq> [] \<and> source \<notin> set currentImages then appendToBodyL img forest
         else forest)"

definition removeIrrelevantContent :: "bool \<Rightarrow> node list \<Rightarrow> node list" where
  "removeIrrelevantContent scriptText doc =
     (let allImgs = selectNodes [tag ''img''] doc;
          d1 = foldl (\<lambda>d selector. removeWhereL (irrelevant selector) d) doc IRRELEVANT_SELECTORS;
          d2 = removeWhereL isAnalytics d1;
          d3 = replaceLargeSvgL d2;
          d4 = removeWhereL (isEmptyElement scriptText) d3;
          currentImages = imgSrcs d4
      in foldl (restoreImage currentImages) d4 allImgs)"

text \<open>
  No image lies below a \<open>script\<close> or \<open>style\<close> element. The parser keeps the content of
  an HTML script or style as text, so an HTML document has no image there; inside
  \<open>svg\<close> or \<open>math\<close> the content of an element of these names is parsed as markup, and
  an image can lie below it (\<open>docSvgScript\<close> below).
\<close>

fun rawClean :: "node \<Rightarrow> bool"
  and rawCleanL :: "node list \<Rightarrow> bool" where
  "rawClean (Text s) = True"
| "rawClean (Element t as cs) =
     ((t = ''script'' \<or> t = ''style'' \<longrightarrow> selectNodes [tag ''img''] cs = []) \<and> rawCleanL cs)"
| "rawCleanL [] = True"
| "rawCleanL (c # cs) = (rawClean c \<and> rawCleanL cs)"

text \<open>
  The markup
  \<open><body><svg><script><foreignObject><img src="https://cdn.hubspot.net/logo.png"></foreignObject></script></svg></body>\<close>
  as the parser reads it: the \<open>script\<close> start tag inside \<open>svg\<close> makes an element of
  the svg namespace whose content is parsed as markup, and \<open>foreignObject\<close> is a
  place where HTML elements such as \<open>img\<close> are inserted. The page has no text node.
\<close>

definition docSvgScript :: "node list" where
  "docSvgScript = loadMarkup
     [Element ''svg'' []
        [Element ''script'' []
           [Element ''foreignObject'' []
              [Element ''img'' [(''src'', ''https://cdn.hubspot.net/logo.png'')] []]]]]"

text \<open>A page with a cookie banner, a tracking script, an empty paragraph and an advertisement that holds an image.\<close>

definition docSmall :: "node list" where
  "docSmall = loadMarkup
     [Element ''div'' [(''class'', ''cookie-banner'')] [Text ''We use cookies''],
      Element ''script'' [(''src'', ''https://www.google-analytics.com/ga.js'')] [],
      Element ''p'' [] [Element ''span'' [] []],
      Element ''div'' [(''class'', ''ad-box'')]
        [Element ''img'' [(''src'', ''offer.png'')] []],
      Element ''p'' [] [Text ''Hello'']]"

text \<open>A string with a character that is not white space, and a forest with a body element.\<close>

definition hasInk :: "string \<Rightarrow> bool" where
  "hasInk s = list_ex (\<lambda>c. \<not> isSpace c) s"

definition hasBody :: "node list \<Rightarrow> bool" where
  "hasBody forest = (selectNodes [tag ''body''] forest \<noteq> [])"

text \<open>The elements of a forest that are images, and the test that an element is one.\<close>

definition imgNodes :: "node list \<Rightarrow> node list" where
  "imgNodes forest = selectNodes [tag ''img''] forest"

text \<open>A page whose only image lies inside a drawing of more than 10000 characters.\<close>

definition bigText :: string where
  "bigText = replicate 10000 (CHR ''x'')"

definition bigSvg :: node where
  "bigSvg = Element ''svg'' []
        [Element ''foreignObject'' [] [Element ''img'' [(''src'', ''chart.png'')] []],
         Element ''desc'' [] [Text bigText]]"

definition docBigSvg :: "node list" where
  "docBigSvg = loadMarkup [bigSvg]"

section \<open>Properties of the rate limiter\<close>

lemma foldl_tokens: "foldl (\<lambda>total record. total + tokensUsed record) a h = a + sum_list (map tokensUsed h)"
  by (induction h arbitrary: a) auto

lemma getCurrentUsage_clean: "getCurrentUsage (cleanOldUsage now b) = windowUsage now b"
  by (simp add: getCurrentUsage_def cleanOldUsage_def windowUsage_def inWindow_def foldl_tokens)

lemma usageHistory_clean: "usageHistory (cleanOldUsage now b) = inWindow now b"
  by (simp add: cleanOldUsage_def inWindow_def)

lemma config_clean: "config (cleanOldUsage now b) = config b"
  by (simp add: cleanOldUsage_def)

lemma clean_idem: "cleanOldUsage now (cleanOldUsage now b) = cleanOldUsage now b"
  by (simp add: cleanOldUsage_def)

lemma walkUsage_spec:
  "walkUsage now ws ex c h =
     (case [i \<leftarrow> [0..<length h]. ex \<le> c + sum_list (map tokensUsed (take (Suc i) h))] of
        [] \<Rightarrow> None
      | i # _ \<Rightarrow> Some (max 0 (timestamp (h ! i) + ws - now)))"
proof (induction h arbitrary: c)
  case Nil
  then show ?case by simp
next
  case (Cons u us)
  have shift: "[i \<leftarrow> [0..<length (u # us)]. ex \<le> c + sum_list (map tokensUsed (take (Suc i) (u # us)))]
      = (if ex \<le> c + tokensUsed u then [0] else [])
        @ map Suc [i \<leftarrow> [0..<length us]. ex \<le> (c + tokensUsed u) + sum_list (map tokensUsed (take (Suc i) us))]"
    by (simp add: upt_conv_Cons map_Suc_upt [symmetric] filter_map o_def add.assoc del: upt_Suc)
  show ?case
    unfolding shift
    by (simp add: Cons.IH Let_def split: list.splits)
qed

lemma walkUsage_Some_record:
  "walkUsage now ws ex c h = Some w \<Longrightarrow> \<exists>u \<in> set h. w = max 0 (timestamp u + ws - now)"
  by (induction h arbitrary: c) (auto simp: Let_def split: if_splits)

lemma inWindow_clean: "now1 \<le> now2 \<Longrightarrow> inWindow now2 (cleanOldUsage now1 b) = inWindow now2 b"
  by (auto simp: inWindow_def cleanOldUsage_def intro!: filter_cong)

lemma canProcess_fst: "fst (canProcess now n b) \<longleftrightarrow> windowUsage now b + n \<le> maxTokens (config b)"
  by (simp add: canProcess_def Let_def getCurrentUsage_clean config_clean)

lemma waitTimeForTokens_fst:
  assumes "now1 \<le> now2"
  shows "fst (waitTimeForTokens now1 now2 now3 n b) =
     (if windowUsage now1 b + n \<le> maxTokens (config b) then 0
      else case walkUsage now3 (windowSize (config b))
                  (windowUsage now2 b + n - maxTokens (config b)) 0 (inWindow now2 b) of
             Some w \<Rightarrow> w | None \<Rightarrow> windowSize (config b))"
proof -
  have "windowUsage now2 (cleanOldUsage now1 b) = windowUsage now2 b"
    using assms by (simp add: windowUsage_def inWindow_clean)
  then show ?thesis
    using assms
    by (simp add: waitTimeForTokens_def canProcess_def Let_def getCurrentUsage_clean
        config_clean usageHistory_clean inWindow_clean split: option.splits)
qed

lemma walkUsage_walk_spec:
  "(case walkUsage now' (windowSize (config b))
           (windowUsage now b + n - maxTokens (config b)) 0 (inWindow now b) of
      Some w \<Rightarrow> w | None \<Rightarrow> windowSize (config b)) = walk_spec now now' n b"
  by (simp add: walk_spec_def Let_def walkUsage_spec split: list.splits)

text \<open>
  Timestamps are written by \<open>consumeTokens\<close> from the clock, so under a clock that
  does not run backwards no record lies in the future.
\<close>

lemma consumeTokens_past:
  "\<forall>r \<in> set (usageHistory b). timestamp r \<le> t \<Longrightarrow> t \<le> t' \<Longrightarrow>
   \<forall>r \<in> set (usageHistory (consumeTokens t0 t k b)). timestamp r \<le> t'"
  by (auto simp: consumeTokens_def cleanOldUsage_def Let_def)

text \<open>
  C2. \<open>canProcess\<close> leaves the bucket purged: exactly the records with
  \<open>timestamp > now - windowSize\<close> remain, so every record older than
  \<open>now - windowSize\<close> is gone. It answers true if and only if the tokens of the
  remaining records plus the requested tokens are at most \<open>maxTokens\<close>. A consumption
  recorded at time \<open>t\<close> (its purge having read the clock at \<open>t0\<close>, not after \<open>t\<close>) does
  not change the answer at any time later than \<open>t + windowSize\<close> (for a window that is
  not negative).
\<close>

theorem canProcess_sliding_window:
  "snd (canProcess now n b) = cleanOldUsage now b
   \<and> usageHistory (snd (canProcess now n b))
       = [r \<leftarrow> usageHistory b. now - windowSize (config b) < timestamp r]
   \<and> (fst (canProcess now n b) \<longleftrightarrow>
        sum_list (map tokensUsed (usageHistory (snd (canProcess now n b)))) + n
          \<le> maxTokens (config b))
   \<and> (0 \<le> windowSize (config b) \<and> t0 \<le> t \<and> t + windowSize (config b) < now' \<longrightarrow>
        fst (canProcess now' n (consumeTokens t0 t k b)) = fst (canProcess now' n b))"
proof -
  have purge: "snd (canProcess now n b) = cleanOldUsage now b"
    by (simp add: canProcess_def Let_def)
  have hist: "usageHistory (snd (canProcess now n b))
       = [r \<leftarrow> usageHistory b. now - windowSize (config b) < timestamp r]"
    by (simp add: purge usageHistory_clean inWindow_def)
  have admit: "fst (canProcess now n b) \<longleftrightarrow>
        sum_list (map tokensUsed (usageHistory (snd (canProcess now n b)))) + n
          \<le> maxTokens (config b)"
    by (simp add: canProcess_def Let_def getCurrentUsage_clean config_clean
        usageHistory_clean windowUsage_def)
  have expire: "fst (canProcess now' n (consumeTokens t0 t k b)) = fst (canProcess now' n b)"
    if w: "0 \<le> windowSize (config b)" and order: "t0 \<le> t"
      and late: "t + windowSize (config b) < now'"
  proof -
    have "inWindow now' (consumeTokens t0 t k b) = inWindow now' b"
      using w order late
      by (auto simp: inWindow_def consumeTokens_def cleanOldUsage_def Let_def
          intro!: filter_cong)
    then have "windowUsage now' (consumeTokens t0 t k b) = windowUsage now' b"
      by (simp add: windowUsage_def)
    moreover have "config (consumeTokens t0 t k b) = config b"
      by (simp add: consumeTokens_def cleanOldUsage_def Let_def)
    ultimately show ?thesis
      by (simp add: canProcess_def Let_def getCurrentUsage_clean config_clean)
  qed
  from purge hist admit expire show ?thesis by blast
qed

theorem canProcess_sliding_window_witness:
  "(0::int) \<le> windowSize (config bucket1k) \<and> (0::int) \<le> 1
   \<and> 1 + windowSize (config bucket1k) < 60002
   \<and> \<not> fst (canProcess 1 200 (consumeTokens 0 1 900 bucket1k))
   \<and> fst (canProcess 60002 200 (consumeTokens 0 1 900 bucket1k))
   \<and> fst (canProcess 60002 200 (consumeTokens 0 1 900 bucket1k)) = fst (canProcess 60002 200 bucket1k)"
  using canProcess_sliding_window [of 60002 200 bucket1k 0 1 60002 900]
  by (simp add: bucket1k_def TokenBucket_new_def canProcess_def consumeTokens_def
      cleanOldUsage_def getCurrentUsage_def Let_def)

text \<open>
  C3. Between the three readings \<open>now1 \<le> now2 \<le> now3\<close> that one call of
  \<open>waitTimeForTokens\<close> makes, for a bucket with a positive window whose records are not
  later than the first reading: when \<open>canProcess\<close> is true (at \<open>now1\<close>) the call
  returns 0. Otherwise it returns the wait of the oldest-first walk (\<open>walk_spec\<close>: the
  window and the excess as the second purge at \<open>now2\<close> leaves them, the first record at
  which the running total reaches the excess, its expiry measured at \<open>now3\<close> and floored
  at 0, the whole window as fallback), which is at least 0 and at most \<open>windowSize\<close>. It
  is strictly positive when the clock does not advance between the purge and the loop
  (\<open>now2 = now3\<close>); then the call returns 0 exactly when \<open>canProcess\<close> is true, and when
  no reading differs from the first the result is the wait of the specification
  (\<open>wait_spec\<close>).
\<close>

theorem waitTimeForTokens_correct:
  assumes window: "0 < windowSize (config b)"
    and past: "\<forall>r \<in> set (usageHistory b). timestamp r \<le> now1"
    and mono: "now1 \<le> now2" "now2 \<le> now3"
  shows "(fst (canProcess now1 n b) \<longrightarrow> fst (waitTimeForTokens now1 now2 now3 n b) = 0)
    \<and> (\<not> fst (canProcess now1 n b) \<longrightarrow>
          fst (waitTimeForTokens now1 now2 now3 n b) = walk_spec now2 now3 n b
          \<and> 0 \<le> fst (waitTimeForTokens now1 now2 now3 n b)
          \<and> fst (waitTimeForTokens now1 now2 now3 n b) \<le> windowSize (config b))
    \<and> (now2 = now3 \<longrightarrow>
          (fst (waitTimeForTokens now1 now2 now3 n b) = 0 \<longleftrightarrow> fst (canProcess now1 n b))
          \<and> (\<not> fst (canProcess now1 n b) \<longrightarrow> 0 < fst (waitTimeForTokens now1 now2 now3 n b)))
    \<and> (now1 = now2 \<and> now2 = now3 \<longrightarrow>
          fst (waitTimeForTokens now1 now2 now3 n b) = wait_spec now1 n b)"
proof -
  let ?w = "fst (waitTimeForTokens now1 now2 now3 n b)"
  let ?walk = "walkUsage now3 (windowSize (config b))
                  (windowUsage now2 b + n - maxTokens (config b)) 0 (inWindow now2 b)"
  note cp = canProcess_fst [of now1 n b]
  note wt = waitTimeForTokens_fst [OF mono(1), of now3 n b]
  have yes: "?w = 0" if "fst (canProcess now1 n b)"
    using that by (simp add: wt cp)
  have walk: "?w = walk_spec now2 now3 n b" if "\<not> fst (canProcess now1 n b)"
    using that by (simp add: wt cp walkUsage_walk_spec)
  have bounds: "0 \<le> ?w \<and> ?w \<le> windowSize (config b) \<and> (now2 = now3 \<longrightarrow> 0 < ?w)"
    if no: "\<not> fst (canProcess now1 n b)"
  proof (cases ?walk)
    case None
    with no have eq: "?w = windowSize (config b)" by (simp add: wt cp)
    show ?thesis unfolding eq using window by simp
  next
    case (Some w)
    then obtain u where u: "u \<in> set (inWindow now2 b)"
      and w: "w = max 0 (timestamp u + windowSize (config b) - now3)"
      using walkUsage_Some_record by blast
    from u have "now2 - windowSize (config b) < timestamp u" "timestamp u \<le> now1"
      using past by (auto simp: inWindow_def)
    with w mono have range: "0 \<le> w \<and> w \<le> windowSize (config b) \<and> (now2 = now3 \<longrightarrow> 0 < w)"
      by auto
    from no Some have eq: "?w = w" by (simp add: wt cp)
    show ?thesis unfolding eq by (rule range)
  qed
  have zero: "?w = 0 \<longleftrightarrow> fst (canProcess now1 n b)" if "now2 = now3"
    using that yes bounds by fastforce
  have spec: "?w = wait_spec now1 n b" if "now1 = now2 \<and> now2 = now3"
  proof (cases "fst (canProcess now1 n b)")
    case True
    then show ?thesis using yes by (simp add: wait_spec_def canProcess_fst)
  next
    case False
    then show ?thesis using walk that by (simp add: wait_spec_def canProcess_fst)
  qed
  from yes walk bounds zero spec show ?thesis by blast
qed

theorem waitTimeForTokens_correct_witness:
  "0 < windowSize (config bucket1k_used)
   \<and> list_all (\<lambda>r. timestamp r \<le> 100) (usageHistory bucket1k_used)
   \<and> (100::int) \<le> 101 \<and> (101::int) \<le> 102
   \<and> \<not> fst (canProcess 100 200 bucket1k_used)
   \<and> fst (waitTimeForTokens 100 101 102 200 bucket1k_used) = 59898
   \<and> walk_spec 101 102 200 bucket1k_used = 59898
   \<and> fst (waitTimeForTokens 100 100 100 200 bucket1k_used) = 59900
   \<and> wait_spec 100 200 bucket1k_used = 59900"
  using waitTimeForTokens_correct [of bucket1k_used 100 101 102 200]
    waitTimeForTokens_correct [of bucket1k_used 100 100 100 200]
  by (simp add: bucket1k_used_def bucket1k_def TokenBucket_new_def canProcess_def
      consumeTokens_def cleanOldUsage_def getCurrentUsage_def Let_def walk_spec_def
      wait_spec_def inWindow_def windowUsage_def)

text \<open>
  What the first two hypotheses exclude: a window of 0 ms, where the fallback is a wait
  of 0 for a request that cannot be processed, and a record later than the clock (written
  before the clock was set back), whose wait exceeds the window.
\<close>

lemma waitTimeForTokens_needs_window:
  "\<not> fst (canProcess 5 2000 (TokenBucket_new \<lparr>maxTokens = 1000, refillRate = 16, windowSize = 0\<rparr>))
   \<and> fst (waitTimeForTokens 5 5 5 2000
            (TokenBucket_new \<lparr>maxTokens = 1000, refillRate = 16, windowSize = 0\<rparr>)) = 0"
  by (simp add: TokenBucket_new_def canProcess_def waitTimeForTokens_def cleanOldUsage_def
      getCurrentUsage_def Let_def)

lemma waitTimeForTokens_needs_past:
  "\<not> fst (canProcess 0 200 (consumeTokens 100 100 900 bucket1k))
   \<and> fst (waitTimeForTokens 0 0 0 200 (consumeTokens 100 100 900 bucket1k)) = 60100
   \<and> windowSize (config (consumeTokens 100 100 900 bucket1k)) = 60000"
  by (simp add: bucket1k_def TokenBucket_new_def canProcess_def
      waitTimeForTokens_def consumeTokens_def cleanOldUsage_def getCurrentUsage_def Let_def)

text \<open>
  The claim as the specification words it fails when the clock advances inside the
  call. 900 of 1000 tokens were consumed at time 0 in a window of 60000 ms; a request for
  200 tokens arrives at 59999, so \<open>canProcess\<close> is false; the loop reads the clock at
  60000, where the record has just left the window, and the call returns 0.
\<close>

theorem waitTimeForTokens_zero_counterexample:
  "\<not> fst (canProcess 59999 200 bucket1k_used)
   \<and> fst (waitTimeForTokens 59999 59999 60000 200 bucket1k_used) = 0"
  by (simp add: bucket1k_used_def bucket1k_def TokenBucket_new_def canProcess_def
      waitTimeForTokens_def consumeTokens_def cleanOldUsage_def getCurrentUsage_def Let_def)

lemma manager_dom_preserved:
  "dom (buckets (snd (RateLimiterManager_canProcess now n mname m))) = dom (buckets m)"
  "dom (buckets (snd (RateLimiterManager_waitTimeForTokens now1 now2 now3 n mname m))) = dom (buckets m)"
  "dom (buckets (snd (RateLimiterManager_getAvailableTokens now mname m))) = dom (buckets m)"
  "dom (buckets (RateLimiterManager_consumeTokens now1 now2 n mname m)) = dom (buckets m)"
  by (auto simp: RateLimiterManager_canProcess_def RateLimiterManager_waitTimeForTokens_def
      RateLimiterManager_getAvailableTokens_def RateLimiterManager_consumeTokens_def
      split: option.splits prod.splits)

text \<open>
  C9. A model name without a bucket is always admitted and never counted: for such a
  name \<open>canProcess\<close> is true, \<open>waitTimeForTokens\<close> is 0, \<open>getAvailableTokens\<close> is
  \<open>Infinity\<close>, and each of these calls, like \<open>consumeTokens\<close>, leaves the manager (every
  bucket) as it was. In the manager the constructor builds, every name other than
  gpt-5, gpt-4o and gpt-4-turbo is such a name.
\<close>

theorem unknown_model_admitted:
  assumes "buckets m mname = None"
  shows "RateLimiterManager_canProcess now n mname m = (True, m)
    \<and> RateLimiterManager_waitTimeForTokens now1 now2 now3 n mname m = (0, m)
    \<and> RateLimiterManager_getAvailableTokens now mname m = (Infinity, m)
    \<and> RateLimiterManager_consumeTokens now1 now2 n mname m = m
    \<and> (\<forall>name. name \<notin> {''gpt-5'', ''gpt-4o'', ''gpt-4-turbo''} \<longrightarrow>
          buckets RateLimiterManager_new name = None)"
  using assms
  by (simp add: RateLimiterManager_canProcess_def RateLimiterManager_waitTimeForTokens_def
      RateLimiterManager_getAvailableTokens_def RateLimiterManager_consumeTokens_def
      RateLimiterManager_new_def)

theorem unknown_model_admitted_witness:
  "buckets RateLimiterManager_new ''gpt-4'' = None
   \<and> RateLimiterManager_canProcess 0 1000000 ''gpt-4'' RateLimiterManager_new
       = (True, RateLimiterManager_new)
   \<and> RateLimiterManager_waitTimeForTokens 0 0 0 1000000 ''gpt-4'' RateLimiterManager_new
       = (0, RateLimiterManager_new)
   \<and> RateLimiterManager_getAvailableTokens 0 ''gpt-4'' RateLimiterManager_new
       = (Infinity, RateLimiterManager_new)
   \<and> RateLimiterManager_consumeTokens 0 0 1000000 ''gpt-4'' RateLimiterManager_new
       = RateLimiterManager_new"
proof -
  have none: "buckets RateLimiterManager_new ''gpt-4'' = None"
    by (simp add: RateLimiterManager_new_def)
  show ?thesis
    using none unknown_model_admitted [OF none, of 0 1000000 0 0 0] by simp
qed

section \<open>Properties of the sort\<close>

lemma mset_insertSorted: "mset (insertSorted cmp x ys) = add_mset x (mset ys)"
  by (induction ys) auto

lemma mset_array_sort_aux:
  "mset (foldl (\<lambda>sorted x. insertSorted cmp x sorted) acc xs) = mset acc + mset xs"
  by (induction xs arbitrary: acc) (auto simp: mset_insertSorted)

lemma mset_array_sort: "mset (array_sort cmp xs) = mset xs"
  by (simp add: array_sort_def mset_array_sort_aux)

lemma set_array_sort: "set (array_sort cmp xs) = set xs"
  using mset_array_sort [of cmp xs] by (metis set_mset_mset)

lemma sorted_insertSorted:
  fixes key :: "'a \<Rightarrow> int"
  assumes below: "\<And>y. cmp x y < 0 \<Longrightarrow> key x \<le> key y"
    and above: "\<And>y. \<not> cmp x y < 0 \<Longrightarrow> key y \<le> key x"
    and srt: "sorted (map key ys)"
  shows "sorted (map key (insertSorted cmp x ys))"
  using srt
proof (induction ys)
  case Nil
  then show ?case by simp
next
  case (Cons y ys)
  show ?case
  proof (cases "cmp x y < 0")
    case True
    with Cons.prems below [of y] show ?thesis by fastforce
  next
    case False
    have "set (insertSorted cmp x ys) = insert x (set ys)"
      using mset_insertSorted [of cmp x ys] by (metis set_mset_add_mset_insert set_mset_mset)
    with False Cons above [of y] show ?thesis by auto
  qed
qed

lemma sorted_array_sort_aux:
  fixes key :: "'a \<Rightarrow> int"
  assumes "\<And>x y. cmp x y < 0 \<Longrightarrow> key x \<le> key y"
    and "\<And>x y. \<not> cmp x y < 0 \<Longrightarrow> key y \<le> key x"
  shows "sorted (map key acc) \<Longrightarrow>
         sorted (map key (foldl (\<lambda>sorted x. insertSorted cmp x sorted) acc xs))"
proof (induction xs arbitrary: acc)
  case Nil
  then show ?case by simp
next
  case (Cons x xs)
  have "sorted (map key (insertSorted cmp x acc))"
    using assms Cons.prems by (intro sorted_insertSorted) auto
  then show ?case using Cons.IH by simp
qed

lemma sorted_array_sort:
  fixes key :: "'a \<Rightarrow> int"
  assumes "\<And>x y. cmp x y < 0 \<Longrightarrow> key x \<le> key y"
    and "\<And>x y. \<not> cmp x y < 0 \<Longrightarrow> key y \<le> key x"
  shows "sorted (map key (array_sort cmp xs))"
  unfolding array_sort_def using assms by (intro sorted_array_sort_aux) auto

lemma priorityOrder_range: "0 \<le> priorityOrder p \<and> priorityOrder p \<le> 3"
  by (cases p) auto

lemma priorityOrder_inj: "priorityOrder p = priorityOrder q \<longleftrightarrow> p = q"
  by (cases p; cases q) auto

lemma compareChunks_below: "compareChunks a b < 0 \<Longrightarrow> chunkRank a \<le> chunkRank b"
  by (auto simp: compareChunks_def chunkRank_def Let_def split: if_splits)

lemma compareChunks_above: "\<not> compareChunks a b < 0 \<Longrightarrow> chunkRank b \<le> chunkRank a"
  by (auto simp: compareChunks_def chunkRank_def Let_def split: if_splits)

lemma sorted_chunkRank: "sorted (map chunkRank (sortChunksByPriority cs))"
  unfolding sortChunksByPriority_def
  by (rule sorted_array_sort) (auto intro: compareChunks_below compareChunks_above)


section \<open>Properties of the router\<close>

lemma routeLoop_chunks: "map fst (fst (routeLoop st clock cs g5 g4 lm)) = cs"
proof (induction cs arbitrary: clock g5 g4 lm)
  case Nil
  then show ?case by simp
next
  case (Cons a cs)
  obtain m g5' g4' where cm: "chooseModel st a g5 g4 = (m, g5', g4')"
    by (cases "chooseModel st a g5 g4") auto
  obtain s l1 where lc: "limiterCheck (clock 0) a m lm = (s, l1)"
    by (cases "limiterCheck (clock 0) a m lm") auto
  obtain es l2 where rl: "routeLoop st (\<lambda>k. clock (Suc k)) cs g5' g4' l1 = (es, l2)"
    by (cases "routeLoop st (\<lambda>k. clock (Suc k)) cs g5' g4' l1") auto
  from Cons.IH [of "\<lambda>k. clock (Suc k)" g5' g4' l1] rl have "map fst es = cs" by simp
  with cm lc rl show ?case by simp
qed

lemma chooseModel_critical:
  "hasCriticalOrProduct c \<Longrightarrow> fst (chooseModel st c g5 g4) = GPT5"
  by (auto simp: chooseModel_def hasCriticalOrProduct_def analyzeChunkForRouting_def Let_def
      list_ex_iff)

lemma limiterCheck_model: "model (fst (limiterCheck ticks c m lm)) = m"
  by (simp add: limiterCheck_def Let_def split: prod.splits)

lemma routeLoop_critical:
  "(c, sel) \<in> set (fst (routeLoop st clock cs g5 g4 lm)) \<Longrightarrow> hasCriticalOrProduct c
   \<Longrightarrow> model sel = GPT5"
proof (induction cs arbitrary: clock g5 g4 lm)
  case Nil
  then show ?case by simp
next
  case (Cons a cs)
  obtain m g5' g4' where cm: "chooseModel st a g5 g4 = (m, g5', g4')"
    by (cases "chooseModel st a g5 g4") auto
  obtain s l1 where lc: "limiterCheck (clock 0) a m lm = (s, l1)"
    by (cases "limiterCheck (clock 0) a m lm") auto
  from Cons.prems(1) cm lc
  consider "c = a" "sel = s"
    | "(c, sel) \<in> set (fst (routeLoop st (\<lambda>k. clock (Suc k)) cs g5' g4' l1))"
    by (auto split: prod.splits)
  then show ?case
  proof cases
    case 1
    with Cons.prems(2) chooseModel_critical [of a st g5 g4] cm
      limiterCheck_model [of "clock 0" a m lm] lc
    show ?thesis by simp
  next
    case 2
    then show ?thesis using Cons.IH Cons.prems(2) by blast
  qed
qed

text \<open>
  C4. Whatever the gpt-5 budget, whatever has been allocated against it and whatever
  the clock reads, the loop of \<open>routeMultipleChunks\<close> gives \<open>gpt-5\<close> to every chunk
  that has an image of importance critical or product; every chunk of the list passed to
  \<open>routeMultipleChunks\<close> gets an entry, with \<open>gpt-5\<close> when it has such an image; and
  \<open>routeContentChunk\<close> selects \<open>gpt-5\<close> for such a chunk.
\<close>

theorem critical_chunks_to_gpt5:
  "(\<forall>(c, sel) \<in> set (fst (routeLoop strategy clock chunkList gpt5TokensUsed gpt4oTokensUsed limiter)).
      hasCriticalOrProduct c \<longrightarrow> model sel = GPT5)
   \<and> (\<forall>c \<in> set chunkList. hasCriticalOrProduct c \<longrightarrow>
        (\<exists>sel. (c, sel) \<in> set (fst (routeMultipleChunks strategy clock chunkList limiter)))
        \<and> (\<forall>sel. (c, sel) \<in> set (fst (routeMultipleChunks strategy clock chunkList limiter))
              \<longrightarrow> model sel = GPT5))
   \<and> (hasCriticalOrProduct chunk \<longrightarrow> model (fst (routeContentChunk ticks chunk limiter)) = GPT5)"
proof -
  have loop: "\<forall>(c, sel) \<in> set (fst (routeLoop strategy clock chunkList gpt5TokensUsed gpt4oTokensUsed limiter)).
      hasCriticalOrProduct c \<longrightarrow> model sel = GPT5"
    using routeLoop_critical by blast
  let ?sorted = "array_sort (\<lambda>a b. getNumericPriority a - getNumericPriority b) chunkList"
  let ?res = "fst (routeMultipleChunks strategy clock chunkList limiter)"
  have keys: "map fst ?res = ?sorted"
    by (simp add: routeMultipleChunks_def routeLoop_chunks)
  have every: "\<exists>sel. (c, sel) \<in> set ?res" if "c \<in> set chunkList" for c
  proof -
    from that have "c \<in> set (map fst ?res)" by (simp add: keys set_array_sort)
    then show ?thesis by force
  qed
  have gpt5: "model sel = GPT5" if "(c, sel) \<in> set ?res" "hasCriticalOrProduct c" for c sel
    using that routeLoop_critical unfolding routeMultipleChunks_def by (metis)
  have single: "model (fst (routeContentChunk ticks chunk limiter)) = GPT5"
    if "hasCriticalOrProduct chunk"
    using that
    by (auto simp: routeContentChunk_def Let_def limiterCheck_model selectOptimalModel_def
        hasCriticalOrProduct_def analyzeChunkForRouting_def list_ex_iff)
  from loop every gpt5 single show ?thesis by blast
qed


theorem critical_chunks_to_gpt5_witness:
  "hasCriticalOrProduct chunkB
   \<and> gpt5Budget getDefaultStrategy < estimatedTokens chunkA + estimatedTokens chunkB
   \<and> (\<exists>sel. (chunkB, sel) \<in> set (fst (routeMultipleChunks getDefaultStrategy
                                          (\<lambda>k. (int k, int k, int k, int k)) [chunkA, chunkB]
                                          RateLimiterManager_new))
             \<and> model sel = GPT5)
   \<and> model (fst (routeContentChunk (0, 0, 0, 0) chunkB RateLimiterManager_new)) = GPT5"
proof -
  have crit: "hasCriticalOrProduct chunkB"
    by (simp add: hasCriticalOrProduct_def chunkB_def productImage_def)
  have over: "gpt5Budget getDefaultStrategy < estimatedTokens chunkA + estimatedTokens chunkB"
    by (simp add: getDefaultStrategy_def chunkA_def chunkB_def)
  have mem: "chunkB \<in> set [chunkA, chunkB]" by simp
  from critical_chunks_to_gpt5 [where strategy = getDefaultStrategy
      and clock = "\<lambda>k. (int k, int k, int k, int k)" and chunkList = "[chunkA, chunkB]"
      and gpt5TokensUsed = 0 and gpt4oTokensUsed = 0 and limiter = RateLimiterManager_new
      and chunk = chunkB and ticks = "(0, 0, 0, 0)"] crit mem over
  show ?thesis by blast
qed


section \<open>Properties of the chunker\<close>

text \<open>
  C1 fails on the code. \<open>docLooseImage\<close> has one image, which the analysis counts and
  classifies as hero; it lies outside every section, and the chunk of type mixed takes
  its images from the decorative ones only, so no chunk carries it: the analysis counts
  one image, the chunks zero.
\<close>

theorem chunkContent_loses_loose_image:
  "imgCount (imageAnalysis (chunkContent docLooseImage [] [])) = 1
   \<and> map importance (allImages (imageAnalysis (chunkContent docLooseImage [] []))) = [Hero]
   \<and> map (\<lambda>c. (ctype c, length (images c))) (chunks (chunkContent docLooseImage [] []))
       = [(TyMixed, 0)]
   \<and> sum_list (map (\<lambda>c. length (images c)) (chunks (chunkContent docLooseImage [] []))) = 0"
  by code_simp

lemma sortChunks_order:
  "mset (sortChunksByPriority cs) = mset cs
    \<and> sorted (map (\<lambda>c. priorityOrder (priority c)) (sortChunksByPriority cs))
    \<and> (\<forall>i j. i < j \<and> j < length (sortChunksByPriority cs)
          \<and> priority (sortChunksByPriority cs ! i) = priority (sortChunksByPriority cs ! j) \<longrightarrow>
          (ctype (sortChunksByPriority cs ! j) = TyHeader \<longrightarrow> ctype (sortChunksByPriority cs ! i) = TyHeader)
          \<and> (ctype (sortChunksByPriority cs ! i) = TyFooter \<longrightarrow> ctype (sortChunksByPriority cs ! j) = TyFooter))"
proof -
  define r where "r = sortChunksByPriority cs"
  have perm: "mset r = mset cs"
    by (simp add: r_def sortChunksByPriority_def mset_array_sort)
  have rank: "chunkRank (r ! i) \<le> chunkRank (r ! j)" if "i < j" "j < length r" for i j
    using sorted_chunkRank [of cs] that
    unfolding r_def by (simp add: sorted_iff_nth_mono)
  have prio: "sorted (map (\<lambda>c. priorityOrder (priority c)) r)"
  proof -
    have "priorityOrder (priority (r ! i)) \<le> priorityOrder (priority (r ! j))"
      if "i < j" "j < length r" for i j
      using rank [OF that] by (simp add: chunkRank_def split: if_splits)
    then show ?thesis
      by (simp add: sorted_iff_nth_mono_less)
  qed
  have ends: "(ctype (r ! j) = TyHeader \<longrightarrow> ctype (r ! i) = TyHeader)
          \<and> (ctype (r ! i) = TyFooter \<longrightarrow> ctype (r ! j) = TyFooter)"
    if "i < j" "j < length r" "priority (r ! i) = priority (r ! j)" for i j
    using rank [OF that(1,2)] that(3) by (simp add: chunkRank_def split: if_splits)
  from perm prio ends show ?thesis unfolding r_def by blast
qed

text \<open>
  C5 (as amended). The list \<open>chunkContent\<close> returns is ordered by priority (critical,
  high, medium, low); among chunks of equal priority a header chunk comes before every
  chunk that is not a header, and a footer chunk after every chunk that is not a footer.
\<close>

theorem chunkContent_order:
  "sorted (map (\<lambda>c. priorityOrder (priority c)) (chunks (chunkContent doc cssText js)))
   \<and> (\<forall>i j. i < j \<and> j < length (chunks (chunkContent doc cssText js))
         \<and> priority (chunks (chunkContent doc cssText js) ! i)
           = priority (chunks (chunkContent doc cssText js) ! j) \<longrightarrow>
         (ctype (chunks (chunkContent doc cssText js) ! j) = TyHeader
            \<longrightarrow> ctype (chunks (chunkContent doc cssText js) ! i) = TyHeader)
         \<and> (ctype (chunks (chunkContent doc cssText js) ! i) = TyFooter
            \<longrightarrow> ctype (chunks (chunkContent doc cssText js) ! j) = TyFooter))"
proof -
  have res: "chunks (chunkContent doc cssText js)
      = sortChunksByPriority (stChunks (extractSections cssText js (analyzeImages doc) doc)
                              @ mixedChunks doc cssText js)"
    by (simp add: chunkContent_def Let_def)
  show ?thesis
    unfolding res
    using sortChunks_order [of "stChunks (extractSections cssText js (analyzeImages doc) doc)
                              @ mixedChunks doc cssText js"]
    by (elim conjE) (intro conjI; assumption)
qed

theorem chunkContent_order_witness:
  "map (\<lambda>c. (ctype c, priority c)) (chunks (chunkContent docShop [] []))
     = [(TyProduct, PCritical), (TyFooter, PCritical), (TyHeader, PMedium), (TyMain, PMedium)]
   \<and> sorted (map (\<lambda>c. priorityOrder (priority c)) (chunks (chunkContent docShop [] [])))"
proof -
  have "map (\<lambda>c. (ctype c, priority c)) (chunks (chunkContent docShop [] []))
     = [(TyProduct, PCritical), (TyFooter, PCritical), (TyHeader, PMedium), (TyMain, PMedium)]"
    by code_simp
  then show ?thesis
    using chunkContent_order [of docShop "[]" "[]"] by blast
qed


text \<open>
  The claim as stated fails: the header is placed first, and the footer last, only
  within its own priority. In \<open>docShop\<close> the header has no image (priority medium) and
  the footer has a product image (priority critical), so the product section and the
  footer come before the header.
\<close>

theorem header_not_first_counterexample:
  "map (\<lambda>c. (ctype c, priority c)) (chunks (chunkContent docShop [] []))
     = [(TyProduct, PCritical), (TyFooter, PCritical), (TyHeader, PMedium), (TyMain, PMedium)]
   \<and> ctype (hd (chunks (chunkContent docShop [] []))) \<noteq> TyHeader
   \<and> ctype (last (chunks (chunkContent docShop [] []))) \<noteq> TyFooter"
  by code_simp

lemma serialize_prune:
  "serializeNode cuts par p n = serializeNode [] par q (prune cuts p n)"
  "serializeChildren cuts par p i cs = serializeChildren [] par q j (prunes cuts p i cs)"
proof (induction cuts par p n and cuts par p i cs arbitrary: q and q j
    rule: serializeNode_serializeChildren.induct)
  case (1 cuts parent p s)
  then show ?case by simp
next
  case (2 cuts parent p t as cs)
  then show ?case by simp
next
  case (3 cuts parent p i)
  then show ?case by simp
next
  case (4 cuts parent p i c cs)
  show ?case
  proof (cases "p @ [i] \<in> set cuts")
    case True
    then show ?thesis using "4.IH"(2) [of q j] by simp
  next
    case False
    then show ?thesis using "4.IH"(1) [of "q @ [j]"] "4.IH"(2) [of q "Suc j"] by simp
  qed
qed

lemma serializeChildren_parent:
  "(par \<in> set rawTextElements \<longleftrightarrow> par' \<in> set rawTextElements) \<Longrightarrow>
   serializeChildren cuts par p i cs = serializeChildren cuts par' p i cs"
proof (induction cs arbitrary: i)
  case Nil
  then show ?case by simp
next
  case (Cons c cs)
  have "serializeNode cuts par (p @ [i]) c = serializeNode cuts par' (p @ [i]) c"
    using Cons.prems by (cases c) auto
  with Cons show ?case by simp
qed

lemma select_body_tag:
  "(p, n) \<in> set (select cuts doc [[tag ''body'']]) \<Longrightarrow> tagOf n = ''body''"
  by (cases n) (auto simp: select_def matchesSelector_def matchesChain_def)

lemma remainingMarkup_text: "htmlText (remainingMarkup doc cssText js) = remainingHtml doc cssText js"
proof -
  let ?st = "extractSections cssText js (analyzeImages doc) doc"
  show ?thesis
  proof (cases "select (stCuts ?st) doc [[tag ''body'']]")
    case Nil
    then show ?thesis by (simp add: remainingMarkup_def remainingHtml_def htmlText_def)
  next
    case (Cons body rest)
    then have "tagOf (snd body) = ''body''"
      using select_body_tag [of "fst body" "snd body" "stCuts ?st" doc] by simp
    then have "serializeChildren (stCuts ?st) (tagOf (snd body)) (fst body) 0 (childrenOf (snd body))
        = serializeChildren (stCuts ?st) [] (fst body) 0 (childrenOf (snd body))"
      by (intro serializeChildren_parent) (simp add: rawTextElements_def)
    also have "\<dots> = serializeChildren [] [] [] 0 (prunes (stCuts ?st) (fst body) 0 (childrenOf (snd body)))"
      by (rule serialize_prune(2))
    finally show ?thesis
      using Cons by (simp add: remainingMarkup_def remainingHtml_def htmlText_def innerHTML_def)
  qed
qed


lemma processSection_types:
  assumes "\<forall>c \<in> set (stChunks st). ctype c \<noteq> TyMixed" and "ty \<noteq> TyMixed"
  shows "\<forall>c \<in> set (stChunks (processSection cssText js a doc ty st el)). ctype c \<noteq> TyMixed"
  using assms by (auto simp: processSection_def Let_def split: prod.splits)

lemma foldl_processSection_types:
  assumes "ty \<noteq> TyMixed"
  shows "\<forall>c \<in> set (stChunks st). ctype c \<noteq> TyMixed \<Longrightarrow>
     \<forall>c \<in> set (stChunks (foldl (processSection cssText js a doc ty) st els)). ctype c \<noteq> TyMixed"
proof (induction els arbitrary: st)
  case Nil
  then show ?case by simp
next
  case (Cons el els)
  show ?case
    using Cons.IH [OF processSection_types [OF Cons.prems assms]] by simp
qed

lemma foldl_extractSectionType_types:
  "\<forall>ty \<in> set tys. ty \<noteq> TyMixed \<Longrightarrow> \<forall>c \<in> set (stChunks st). ctype c \<noteq> TyMixed \<Longrightarrow>
     \<forall>c \<in> set (stChunks (foldl (extractSectionType cssText js a doc) st tys)). ctype c \<noteq> TyMixed"
proof (induction tys arbitrary: st)
  case Nil
  then show ?case by simp
next
  case (Cons ty tys)
  have "\<forall>c \<in> set (stChunks (extractSectionType cssText js a doc st ty)). ctype c \<noteq> TyMixed"
    unfolding extractSectionType_def
    using Cons.prems by (intro foldl_processSection_types) auto
  then show ?case using Cons.IH Cons.prems(1) by simp
qed

lemma extractSections_types:
  "\<forall>c \<in> set (stChunks (extractSections cssText js a doc)). ctype c \<noteq> TyMixed"
  unfolding extractSections_def
  by (rule foldl_extractSectionType_types) (auto simp: sectionTypes_def)

lemma insertSorted_split:
  "insertSorted cmp x ys
     = takeWhile (\<lambda>y. \<not> cmp x y < 0) ys @ x # dropWhile (\<lambda>y. \<not> cmp x y < 0) ys"
  by (induction ys) auto

lemma array_sort_snoc: "array_sort cmp (xs @ [x]) = insertSorted cmp x (array_sort cmp xs)"
  by (simp add: array_sort_def)

lemma chunkRank_top: "11 \<le> chunkRank c \<Longrightarrow> ctype c = TyFooter \<and> priority c = PLow"
  by (cases "priority c") (auto simp: chunkRank_def split: if_splits)

lemma below_low_mixed:
  "ctype m = TyMixed \<Longrightarrow> priority m = PLow \<Longrightarrow> compareChunks m y < 0
   \<Longrightarrow> 11 \<le> chunkRank y"
  using priorityOrder_range [of "priority y"]
  by (auto simp: compareChunks_def chunkRank_def Let_def split: if_splits)

lemma after_low_mixed:
  assumes m: "ctype m = TyMixed" "priority m = PLow"
    and srt: "sorted (map chunkRank ys)"
    and c: "c \<in> set (dropWhile (\<lambda>y. \<not> compareChunks m y < 0) ys)"
  shows "ctype c = TyFooter \<and> priority c = PLow"
proof -
  let ?post = "dropWhile (\<lambda>y. \<not> compareChunks m y < 0) ys"
  from c have ne: "?post \<noteq> []" by (metis empty_iff empty_set)
  then have first: "compareChunks m (hd ?post) < 0"
    using hd_dropWhile [of "\<lambda>y. \<not> compareChunks m y < 0" ys] by blast
  have "11 \<le> chunkRank (hd ?post)"
    using first m by (rule below_low_mixed [rotated 2])
  moreover have "sorted (map chunkRank ?post)"
    using srt by (metis sorted_append takeWhile_dropWhile_id map_append)
  ultimately have "11 \<le> chunkRank c"
    using c ne by (cases ?post) (auto simp: )
  then show ?thesis by (rule chunkRank_top)
qed

lemma mixedChunks_cases:
  "(100 < length (trim (remainingHtml doc cssText js)) \<longrightarrow>
      (\<exists>m. mixedChunks doc cssText js = [m] \<and> ctype m = TyMixed \<and> priority m = PLow
           \<and> css m = cssText \<and> javascript m = js
           \<and> htmlText (html m) = remainingHtml doc cssText js))
   \<and> (length (trim (remainingHtml doc cssText js)) \<le> 100 \<longrightarrow> mixedChunks doc cssText js = [])"
  by (simp add: mixedChunks_def Let_def remainingMarkup_text)

text \<open>
  C6 (as amended). When the markup left in the body after the typed extractions is,
  trimmed, longer than 100 characters, \<open>chunkContent\<close> returns exactly one chunk of type
  mixed; its markup is that remainder, its css is the whole input css and its
  javascript the whole input javascript; in the returned list only footer chunks of
  low priority can follow it. When the remainder is not longer than 100 characters no
  chunk of type mixed is returned.
\<close>

theorem mixed_chunk_guarded:
  "(100 < length (trim (remainingHtml doc cssText js)) \<longrightarrow>
      (\<exists>pre m post. chunks (chunkContent doc cssText js) = pre @ m # post
         \<and> ctype m = TyMixed \<and> css m = cssText \<and> javascript m = js
         \<and> htmlText (html m) = remainingHtml doc cssText js
         \<and> (\<forall>c \<in> set pre. ctype c \<noteq> TyMixed)
         \<and> (\<forall>c \<in> set post. ctype c = TyFooter \<and> priority c = PLow)))
   \<and> (length (trim (remainingHtml doc cssText js)) \<le> 100 \<longrightarrow>
        (\<forall>c \<in> set (chunks (chunkContent doc cssText js)). ctype c \<noteq> TyMixed))"
proof -
  let ?S = "stChunks (extractSections cssText js (analyzeImages doc) doc)"
  have res: "chunks (chunkContent doc cssText js)
      = sortChunksByPriority (?S @ mixedChunks doc cssText js)"
    by (simp add: chunkContent_def Let_def)
  have typed: "\<forall>c \<in> set ?S. ctype c \<noteq> TyMixed"
    by (rule extractSections_types)
  have long: "\<exists>pre m post. chunks (chunkContent doc cssText js) = pre @ m # post
         \<and> ctype m = TyMixed \<and> css m = cssText \<and> javascript m = js
         \<and> htmlText (html m) = remainingHtml doc cssText js
         \<and> (\<forall>c \<in> set pre. ctype c \<noteq> TyMixed)
         \<and> (\<forall>c \<in> set post. ctype c = TyFooter \<and> priority c = PLow)"
    if "100 < length (trim (remainingHtml doc cssText js))"
  proof -
    from that mixedChunks_cases [of doc cssText js]
    obtain m where m: "mixedChunks doc cssText js = [m]" "ctype m = TyMixed" "priority m = PLow"
      "css m = cssText" "javascript m = js" "htmlText (html m) = remainingHtml doc cssText js"
      by blast
    let ?ys = "array_sort compareChunks ?S"
    let ?pre = "takeWhile (\<lambda>y. \<not> compareChunks m y < 0) ?ys"
    let ?post = "dropWhile (\<lambda>y. \<not> compareChunks m y < 0) ?ys"
    have split: "chunks (chunkContent doc cssText js) = ?pre @ m # ?post"
      by (simp add: res m(1) sortChunksByPriority_def array_sort_snoc insertSorted_split)
    have "set ?pre \<subseteq> set ?S"
      using set_takeWhileD set_array_sort by fastforce
    with typed have pre: "\<forall>c \<in> set ?pre. ctype c \<noteq> TyMixed" by blast
    have srt: "sorted (map chunkRank ?ys)"
      using sorted_chunkRank [of ?S] by (simp add: sortChunksByPriority_def)
    have post: "\<forall>c \<in> set ?post. ctype c = TyFooter \<and> priority c = PLow"
      using after_low_mixed [OF m(2,3) srt] by blast
    from split m pre post show ?thesis by blast
  qed
  have short: "\<forall>c \<in> set (chunks (chunkContent doc cssText js)). ctype c \<noteq> TyMixed"
    if "length (trim (remainingHtml doc cssText js)) \<le> 100"
  proof -
    from that mixedChunks_cases [of doc cssText js]
    have "mixedChunks doc cssText js = []" by blast
    then have "set (chunks (chunkContent doc cssText js)) = set ?S"
      by (simp add: res sortChunksByPriority_def set_array_sort)
    with typed show ?thesis by blast
  qed
  from long short show ?thesis by blast
qed


theorem mixed_chunk_guarded_witness:
  "100 < length (trim (remainingHtml docLongRest ''p { margin: 0 }'' ''init()''))
   \<and> length (trim (remainingHtml docShortRest [] [])) \<le> 100
   \<and> (\<exists>pre m post. chunks (chunkContent docLongRest ''p { margin: 0 }'' ''init()'') = pre @ m # post
         \<and> ctype m = TyMixed \<and> css m = ''p { margin: 0 }'' \<and> javascript m = ''init()'')
   \<and> list_all (\<lambda>c. ctype c \<noteq> TyMixed) (chunks (chunkContent docShortRest [] []))"
proof -
  have long: "100 < length (trim (remainingHtml docLongRest ''p { margin: 0 }'' ''init()''))"
    by code_simp
  have short: "length (trim (remainingHtml docShortRest [] [])) \<le> 100"
    by code_simp
  from long mixed_chunk_guarded [of docLongRest "''p { margin: 0 }''" "''init()''"]
  have one: "\<exists>pre m post. chunks (chunkContent docLongRest ''p { margin: 0 }'' ''init()'') = pre @ m # post
         \<and> ctype m = TyMixed \<and> css m = ''p { margin: 0 }'' \<and> javascript m = ''init()''"
    by blast
  from short mixed_chunk_guarded [of docShortRest "[]" "[]"]
  have none: "list_all (\<lambda>c. ctype c \<noteq> TyMixed) (chunks (chunkContent docShortRest [] []))"
    by (simp add: list_all_iff)
  from long short one none show ?thesis by blast
qed

text \<open>
  The claim as stated fails twice. In \<open>docShortRest\<close> a paragraph is left behind and no
  chunk of type mixed is returned, because the remainder is shorter than the guard
  asks. In \<open>docLongRest\<close> the chunk of type mixed is returned but is not the last one:
  the footer, of the same low priority, is sorted behind it.
\<close>

theorem mixed_chunk_counterexample:
  "remainingHtml docShortRest [] [] = ''<p>hello</p>''
   \<and> map ctype (chunks (chunkContent docShortRest [] [])) = [TyHeader]
   \<and> map ctype (chunks (chunkContent docLongRest [] [])) = [TyMixed, TyFooter]"
  by code_simp


lemma matchesUp_single: "matchesUp [A] ancs \<longleftrightarrow> (\<exists>a \<in> set ancs. matchesCompound A a)"
  by (induction ancs) auto

lemma closest_compound:
  "closest [] doc img [[A]] \<noteq> None
   \<longleftrightarrow> (\<exists>x \<in> set (snd img # map snd (ancestors [] doc (fst img))). matchesCompound A x)"
proof -
  let ?xs = "img # ancestors [] doc (fst img)"
  have sel: "matchesSelector [[A]] n ancs = matchesCompound A n" for n ancs
    by (simp add: matchesSelector_def matchesChain_def)
  have "closest [] doc img [[A]] \<noteq> None \<longleftrightarrow> (\<exists>x. x \<in> set ?xs \<and> matchesCompound A (snd x))"
    unfolding closest_def find_None_iff sel case_prod_beta by blast
  also have "\<dots> \<longleftrightarrow> (\<exists>y \<in> snd ` set ?xs. matchesCompound A y)"
    by blast
  also have "snd ` set ?xs = set (snd img # map snd (ancestors [] doc (fst img)))"
    by simp
  finally show ?thesis .
qed

lemma criticalSelectorHit_single:
  "criticalSelectorHit doc img [A]
   \<longleftrightarrow> (\<exists>x \<in> set (snd img # map snd (ancestors [] doc (fst img))). matchesCompound A x)"
  unfolding criticalSelectorHit_def closest_compound list.sel
  by (auto simp: matchesChain_def)

lemma criticalSelectorHit_pair:
  "criticalSelectorHit doc img [A, B]
   \<longleftrightarrow> (\<exists>x \<in> set (snd img # map snd (ancestors [] doc (fst img))). matchesCompound A x)"
  unfolding criticalSelectorHit_def closest_compound list.sel
  by (auto simp: matchesChain_def matchesUp_single)

lemma critical_selectors_context:
  "list_ex (criticalSelectorHit doc img) CRITICAL_IMAGE_SELECTORS \<longleftrightarrow> inCriticalContext doc img"
proof -
  let ?X = "set (snd img # map snd (ancestors [] doc (fst img)))"
  have hit: "\<forall>sel \<in> set CRITICAL_IMAGE_SELECTORS.
      criticalSelectorHit doc img sel \<longleftrightarrow> (\<exists>x \<in> ?X. matchesCompound (hd sel) x)"
    unfolding CRITICAL_IMAGE_SELECTORS_def
    by (simp only: list.set ball_simps criticalSelectorHit_single criticalSelectorHit_pair
        list.sel simp_thms)
  have heads: "map hd CRITICAL_IMAGE_SELECTORS = criticalContexts"
    by (simp add: CRITICAL_IMAGE_SELECTORS_def criticalContexts_def)
  have "list_ex (criticalSelectorHit doc img) CRITICAL_IMAGE_SELECTORS
      \<longleftrightarrow> (\<exists>sel \<in> set CRITICAL_IMAGE_SELECTORS. \<exists>x \<in> ?X. matchesCompound (hd sel) x)"
    using hit by (simp only: list_ex_iff) blast
  also have "\<dots> \<longleftrightarrow> (\<exists>x \<in> ?X. \<exists>c \<in> set (map hd CRITICAL_IMAGE_SELECTORS). matchesCompound c x)"
    by (simp only: set_map) blast
  also have "\<dots> \<longleftrightarrow> inCriticalContext doc img"
    by (simp only: heads inCriticalContext_def list_ex_iff)
  finally show ?thesis .
qed

text \<open>
  C7 (as amended). \<open>classifyImageImportance\<close> assigns the importance by the first rule
  that matches: a \<open>data:image/\<close> source longer than 50000 characters is critical; an
  image that lies in a critical structural context (itself or an ancestor matching the
  first compound of a critical selector: the product, shop and catalog contexts and
  also the hero, hero-image, banner and main-image contexts) is critical; alt text,
  class or context containing a product keyword gives product; containing hero, banner,
  main, featured or primary gives hero; a position below 3 among the images of the body
  with a source longer than 10000 characters gives hero; anything else is decorative.
  In particular an image in a hero or banner block is critical, and an image whose only
  signal is a hero keyword is hero.
\<close>

theorem classifyImageImportance_rules:
  "classifyImageImportance doc img ctx =
     (if largeInlineImage (snd img) then Critical
      else if inCriticalContext doc img then Critical
      else if keywordHit productKeywords (attrOrEmpty ''alt'' (snd img))
                (attrOrEmpty ''class'' (snd img)) ctx then Product
      else if keywordHit heroKeywords (attrOrEmpty ''alt'' (snd img))
                (attrOrEmpty ''class'' (snd img)) ctx then Hero
      else if imagePosition doc img < 3 \<and> 10000 < length (attrOrEmpty ''src'' (snd img)) then Hero
      else Decorative)
   \<and> (inCriticalContext doc img \<longrightarrow> classifyImageImportance doc img ctx = Critical)
   \<and> (\<not> largeInlineImage (snd img) \<and> \<not> inCriticalContext doc img
        \<and> \<not> keywordHit productKeywords (attrOrEmpty ''alt'' (snd img))
                (attrOrEmpty ''class'' (snd img)) ctx
        \<and> keywordHit heroKeywords (attrOrEmpty ''alt'' (snd img))
                (attrOrEmpty ''class'' (snd img)) ctx
        \<longrightarrow> classifyImageImportance doc img ctx = Hero)"
  by (simp add: classifyImageImportance_def Let_def critical_selectors_context
      largeInlineImage_def)

theorem classifyImageImportance_rules_witness:
  "nodeAt docHero (fst imgHero) = Some (snd imgHero)
   \<and> inCriticalContext docHero imgHero
   \<and> classifyImageImportance docHero imgHero [] = Critical
   \<and> nodeAt docHeroAlt (fst imgHeroAlt) = Some (snd imgHeroAlt)
   \<and> \<not> inCriticalContext docHeroAlt imgHeroAlt
   \<and> keywordHit heroKeywords (attrOrEmpty ''alt'' (snd imgHeroAlt))
        (attrOrEmpty ''class'' (snd imgHeroAlt)) []
   \<and> classifyImageImportance docHeroAlt imgHeroAlt [] = Hero"
proof -
  have a: "nodeAt docHero (fst imgHero) = Some (snd imgHero)" by code_simp
  have b: "inCriticalContext docHero imgHero" by code_simp
  have c: "nodeAt docHeroAlt (fst imgHeroAlt) = Some (snd imgHeroAlt)" by code_simp
  have d: "\<not> largeInlineImage (snd imgHeroAlt)" by code_simp
  have e: "\<not> inCriticalContext docHeroAlt imgHeroAlt" by code_simp
  have f: "\<not> keywordHit productKeywords (attrOrEmpty ''alt'' (snd imgHeroAlt))
        (attrOrEmpty ''class'' (snd imgHeroAlt)) []" by code_simp
  have g: "keywordHit heroKeywords (attrOrEmpty ''alt'' (snd imgHeroAlt))
        (attrOrEmpty ''class'' (snd imgHeroAlt)) []" by code_simp
  from classifyImageImportance_rules [of docHero imgHero "[]"] b
  have h: "classifyImageImportance docHero imgHero [] = Critical" by blast
  from classifyImageImportance_rules [of docHeroAlt imgHeroAlt "[]"] d e f g
  have i: "classifyImageImportance docHeroAlt imgHeroAlt [] = Hero" by blast
  from a b c e g h i show ?thesis by blast
qed

text \<open>
  The claim as stated fails: the image of \<open>docHero\<close> has a hero keyword in its alt text
  and lies in a block of class hero, and it is classified critical, not hero; the image
  of \<open>docPrimaryAlt\<close> has none of the keywords hero, banner, featured and is classified
  hero, not decorative.
\<close>

theorem hero_context_counterexample:
  "map (\<lambda>i. (src i, alt i, importance i)) (allImages (analyzeImages docHero))
     = [(''sky.png'', ''hero shot'', Critical)]
   \<and> map (\<lambda>i. (src i, alt i, importance i)) (allImages (analyzeImages docPrimaryAlt))
     = [(''logo.png'', ''primary logo'', Hero)]"
  by code_simp


text \<open>
  C8 fails on the code. The header chunk of \<open>docLogoHeader\<close> is estimated at 30 tokens
  and carries the image \<open>logo.png\<close>. With a ceiling of 25 it is split along its two
  \<open>div\<close> blocks; the image is in neither, so no chunk of the result carries it. With a
  ceiling of 5 both blocks are themselves too large and nothing of the chunk is
  returned at all.
\<close>

theorem splitOversizedChunks_loses_image:
  "map (\<lambda>c. (estimatedTokens c, map src (images c))) (chunks (chunkContent docLogoHeader [] []))
     = [(30, [''logo.png''])]
   \<and> map (\<lambda>c. (chunkId c, estimatedTokens c, map src (images c)))
         (splitOversizedChunks (chunks (chunkContent docLogoHeader [] [])) 25)
     = [(''chunk-1-sub-1'', 9, []), (''chunk-1-sub-2'', 10, [])]
   \<and> splitOversizedChunks (chunks (chunkContent docLogoHeader [] [])) 5 = []"
  by code_simp

text \<open>
  The parts of the claim that hold: a chunk at or below the ceiling is returned as it
  is, and so is a larger chunk with fewer than two \<open>section\<close>, \<open>article\<close> or \<open>div\<close>
  elements.
\<close>

lemma splitChunk_unsplit:
  "estimatedTokens chunk \<le> maxTokensPerChunk \<Longrightarrow> splitChunk maxTokensPerChunk chunk = [chunk]"
  "length (select [] (loadMarkup (html chunk)) [[tag ''section''], [tag ''article''], [tag ''div'']]) \<le> 1
     \<Longrightarrow> splitChunk maxTokensPerChunk chunk = [chunk]"
  by (simp_all add: splitChunk_def Let_def)

lemma splitOversizedChunks_small:
  "\<forall>chunk \<in> set chunkList. estimatedTokens chunk \<le> maxTokensPerChunk \<Longrightarrow>
   splitOversizedChunks chunkList maxTokensPerChunk = chunkList"
  by (induction chunkList) (simp_all add: splitOversizedChunks_def splitChunk_unsplit(1))



section \<open>Properties of the content optimizer\<close>

lemma elemsL_append: "elemsL (xs @ ys) = elemsL xs @ elemsL ys"
  by (induction xs) auto

lemma selectNodes_append: "selectNodes sel (xs @ ys) = selectNodes sel xs @ selectNodes sel ys"
  by (simp add: selectNodes_def elemsL_append)

lemma selectNodes_Nil: "selectNodes sel [] = []"
  by (simp add: selectNodes_def)

lemma selectNodes_Cons: "selectNodes sel (c # cs) = selectNodes sel [c] @ selectNodes sel cs"
  using selectNodes_append [of sel "[c]" cs] by simp

lemma selectNodes_Text: "selectNodes sel [Text s] = []"
  by (simp add: selectNodes_def)

lemma selectNodes_Element:
  "selectNodes sel [Element t as cs] =
     (if list_ex (\<lambda>c. matchesCompound c (Element t as cs)) sel then [Element t as cs] else [])
     @ selectNodes sel cs"
  by (simp add: selectNodes_def)

lemma imgNodes_simps:
  "imgNodes [] = []"
  "imgNodes (c # cs) = imgNodes [c] @ imgNodes cs"
  "imgNodes [Text s] = []"
  "imgNodes [Element t as cs] = (if t = ''img'' then [Element t as cs] else []) @ imgNodes cs"
  "imgNodes (xs @ ys) = imgNodes xs @ imgNodes ys"
  unfolding imgNodes_def
  using selectNodes_Cons [of "[tag ''img'']" c cs]
  by (simp_all add: selectNodes_Nil selectNodes_Text selectNodes_Element selectNodes_append)

lemma imgSrcs_imgNodes:
  "imgSrcs forest = filter (\<lambda>s. s \<noteq> []) (map (attrOrEmpty ''src'') (imgNodes forest))"
  by (simp add: imgSrcs_def imgNodes_def)

lemma imgSrcs_simps:
  "imgSrcs [] = []"
  "imgSrcs (c # cs) = imgSrcs [c] @ imgSrcs cs"
  "imgSrcs [Text s] = []"
  "imgSrcs [Element t as cs] =
     (if t = ''img'' \<and> attrOrEmpty ''src'' (Element t as cs) \<noteq> []
      then [attrOrEmpty ''src'' (Element t as cs)] else []) @ imgSrcs cs"
  "imgSrcs (xs @ ys) = imgSrcs xs @ imgSrcs ys"
  unfolding imgSrcs_imgNodes
  using imgNodes_simps(2) [of c cs]
  by (simp_all add: imgNodes_simps(1,3,4,5))

lemma imgNodes_empty_srcs: "imgNodes forest = [] \<Longrightarrow> imgSrcs forest = []"
  by (simp add: imgSrcs_imgNodes)


lemma sel_img: "selectNodes [tag ''img''] forest = imgNodes forest"
  by (simp add: imgNodes_def)

lemma removeWhereL_append: "removeWhereL P (xs @ ys) = removeWhereL P xs @ removeWhereL P ys"
  by (induction xs) auto

lemma rawCleanL_append: "rawCleanL (xs @ ys) \<longleftrightarrow> rawCleanL xs \<and> rawCleanL ys"
  by (induction xs) auto

lemma removeWhere_imgSrcs:
  "(\<forall>m \<in> set (elems n). P m \<longrightarrow> imgNodes [m] = []) \<Longrightarrow> imgSrcs (removeWhere P n) = imgSrcs [n]"
  "(\<forall>m \<in> set (elemsL ns). P m \<longrightarrow> imgNodes [m] = []) \<Longrightarrow> imgSrcs (removeWhereL P ns) = imgSrcs ns"
proof (induction P n and P ns rule: removeWhere_removeWhereL.induct)
  case (1 P s)
  then show ?case by simp
next
  case (2 P t as cs)
  show ?case
  proof (cases "P (Element t as cs)")
    case True
    with "2.prems" have "imgNodes [Element t as cs] = []" by simp
    then show ?thesis using True by (simp add: imgNodes_empty_srcs imgSrcs_simps(1))
  next
    case False
    from "2.prems" have "\<forall>m \<in> set (elemsL cs). P m \<longrightarrow> imgNodes [m] = []" by simp
    with "2.IH" False have "imgSrcs (removeWhereL P cs) = imgSrcs cs" by simp
    then show ?thesis using False by (simp add: imgSrcs_simps(4) attrOrEmpty_def)
  qed
next
  case (3 P)
  then show ?case by simp
next
  case (4 P c cs)
  from "4.prems" have a: "\<forall>m \<in> set (elems c). P m \<longrightarrow> imgNodes [m] = []"
    and b: "\<forall>m \<in> set (elemsL cs). P m \<longrightarrow> imgNodes [m] = []" by simp_all
  show ?case
    using "4.IH"(1) [OF a] "4.IH"(2) [OF b] imgSrcs_simps(2) [of c cs]
    by (simp add: imgSrcs_simps(5))
qed

lemma removeWhere_imgNodes_empty:
  "imgNodes [n] = [] \<Longrightarrow> imgNodes (removeWhere P n) = []"
  "imgNodes ns = [] \<Longrightarrow> imgNodes (removeWhereL P ns) = []"
proof (induction P n and P ns rule: removeWhere_removeWhereL.induct)
  case (1 P s)
  then show ?case by simp
next
  case (2 P t as cs)
  then show ?case by (simp add: imgNodes_simps(1,4) split: if_splits)
next
  case (3 P)
  then show ?case by simp
next
  case (4 P c cs)
  from "4.prems" imgNodes_simps(2) [of c cs] have "imgNodes [c] = []" "imgNodes cs = []"
    by simp_all
  with "4.IH" show ?case by (simp add: imgNodes_simps(5))
qed

lemma rawClean_removeWhere:
  "rawClean n \<Longrightarrow> rawCleanL (removeWhere P n)"
  "rawCleanL ns \<Longrightarrow> rawCleanL (removeWhereL P ns)"
proof (induction P n and P ns rule: removeWhere_removeWhereL.induct)
  case (1 P s)
  then show ?case by simp
next
  case (2 P t as cs)
  then show ?case
    using removeWhere_imgNodes_empty(2) [of cs P]
    by (auto simp: sel_img)
next
  case (3 P)
  then show ?case by simp
next
  case (4 P c cs)
  then show ?case by (simp add: rawCleanL_append)
qed

lemma rawClean_script_no_images:
  "rawClean n \<Longrightarrow> m \<in> set (elems n) \<Longrightarrow> tagOf m = ''script'' \<or> tagOf m = ''style''
     \<Longrightarrow> imgNodes [m] = []"
  "rawCleanL ns \<Longrightarrow> m \<in> set (elemsL ns) \<Longrightarrow> tagOf m = ''script'' \<or> tagOf m = ''style''
     \<Longrightarrow> imgNodes [m] = []"
proof (induction n and ns rule: elems_elemsL.induct)
  case (1 s)
  then show ?case by simp
next
  case (2 t as cs)
  from "2.prems"(2) consider "m = Element t as cs" | "m \<in> set (elemsL cs)" by auto
  then show ?case
  proof cases
    case 1
    with "2.prems"(1,3) show ?thesis by (auto simp: imgNodes_simps(4) sel_img)
  next
    case 2
    with "2.IH" "2.prems"(1,3) show ?thesis by simp
  qed
next
  case 3
  then show ?case by simp
next
  case (4 c cs)
  then show ?case by auto
qed

lemma matches_tag: "matchesCompound (tag t) n \<longleftrightarrow> isElement n \<and> tagOf n = t"
  by (cases n) auto

lemma irrelevant_no_images: "irrelevant selector m \<Longrightarrow> imgNodes [m] = []"
  by (cases m) (auto simp: irrelevant_def findNodes_def imgNodes_simps(3,4) sel_img)

lemma isAnalytics_script: "isAnalytics m \<Longrightarrow> tagOf m = ''script''"
  by (cases m) (auto simp: isAnalytics_def)

lemma selectNodes_empty_mono:
  assumes "\<And>n. list_ex (\<lambda>c. matchesCompound c n) sel1 \<Longrightarrow> list_ex (\<lambda>c. matchesCompound c n) sel2"
    and "selectNodes sel2 forest = []"
  shows "selectNodes sel1 forest = []"
  using assms unfolding selectNodes_def filter_empty_conv by blast

lemma isEmptyElement_no_images: "isEmptyElement tx m \<Longrightarrow> imgNodes [m] = []"
proof (cases m)
  case (Element t as cs)
  assume e: "isEmptyElement tx m"
  then have "t \<noteq> ''img''"
    using Element by (auto simp: isEmptyElement_def keptWhenEmpty_def)
  moreover have "imgNodes cs = []"
    unfolding sel_img [symmetric]
  proof (rule selectNodes_empty_mono)
    show "selectNodes [tag ''img'', tag ''input'', tag ''br'', tag ''hr''] cs = []"
      using e Element by (simp add: isEmptyElement_def findNodes_def)
  qed auto
  ultimately show ?thesis using Element by (simp add: imgNodes_simps(4))
next
  case (Text s)
  then show ?thesis by (simp add: imgNodes_simps(3))
qed


lemma hasInk_Nil: "\<not> hasInk []"
  by (simp add: hasInk_def)

lemma hasInk_append: "hasInk (xs @ ys) \<longleftrightarrow> hasInk xs \<or> hasInk ys"
  by (simp add: hasInk_def)

lemma hasInk_dropWhile: "hasInk s \<Longrightarrow> hasInk (dropWhile isSpace s)"
proof -
  assume "hasInk s"
  then have ne: "dropWhile isSpace s \<noteq> []"
    by (auto simp: hasInk_def list_ex_iff dropWhile_eq_Nil_conv)
  then have "\<not> isSpace (hd (dropWhile isSpace s))"
    using hd_dropWhile by blast
  moreover have "hd (dropWhile isSpace s) \<in> set (dropWhile isSpace s)"
    using ne by simp
  ultimately show ?thesis
    unfolding hasInk_def list_ex_iff by blast
qed

lemma hasInk_rev: "hasInk (rev s) \<longleftrightarrow> hasInk s"
  by (simp add: hasInk_def list_ex_iff)

lemma trim_hasInk: "hasInk s \<Longrightarrow> trim s \<noteq> []"
proof -
  assume "hasInk s"
  then have "hasInk (rev (dropWhile isSpace s))"
    by (simp add: hasInk_rev hasInk_dropWhile)
  then have "hasInk (dropWhile isSpace (rev (dropWhile isSpace s)))"
    by (rule hasInk_dropWhile)
  then have "dropWhile isSpace (rev (dropWhile isSpace s)) \<noteq> []"
    by (metis hasInk_Nil)
  then show ?thesis
    by (simp add: trim_def)
qed

lemma textOfL_append: "textOfL tx (xs @ ys) = textOfL tx xs @ textOfL tx ys"
  by (induction xs) auto

lemma placeholder_facts:
  "imgNodes [svgPlaceholder] = []" "imgSrcs [svgPlaceholder] = []"
  "hasInk (textOf tx svgPlaceholder)"
  by (simp_all add: svgPlaceholder_def imgNodes_simps(1,3,4) imgSrcs_simps(1,3,4)
      hasInk_def isSpace_def)

lemma replaceLargeSvgL_append:
  "replaceLargeSvgL (xs @ ys) = replaceLargeSvgL xs @ replaceLargeSvgL ys"
  by (induction xs) auto

lemma replaceLargeSvg_imgNodes_empty:
  "imgNodes [n] = [] \<Longrightarrow> imgNodes [replaceLargeSvg n] = []"
  "imgNodes ns = [] \<Longrightarrow> imgNodes (replaceLargeSvgL ns) = []"
proof (induction n and ns rule: replaceLargeSvg_replaceLargeSvgL.induct)
  case (1 s)
  then show ?case by simp
next
  case (2 t as cs)
  then show ?case
    by (auto simp: imgNodes_simps(1,4) placeholder_facts(1) split: if_splits)
next
  case 3
  then show ?case by simp
next
  case (4 c cs)
  from "4.prems" imgNodes_simps(2) [of c cs] have "imgNodes [c] = []" "imgNodes cs = []"
    by simp_all
  with "4.IH" imgNodes_simps(2) [of "replaceLargeSvg c" "replaceLargeSvgL cs"]
  show ?case by simp
qed

lemma replaceLargeSvg_ink:
  "rawClean n \<Longrightarrow> imgSrcs [replaceLargeSvg n] \<noteq> imgSrcs [n] \<Longrightarrow> hasInk (textOf tx (replaceLargeSvg n))"
  "rawCleanL ns \<Longrightarrow> imgSrcs (replaceLargeSvgL ns) \<noteq> imgSrcs ns
     \<Longrightarrow> hasInk (textOfL tx (replaceLargeSvgL ns))"
proof (induction n and ns rule: replaceLargeSvg_replaceLargeSvgL.induct)
  case (1 s)
  then show ?case by simp
next
  case (2 t as cs)
  show ?case
  proof (cases "t = ''svg'' \<and> length (outerHTML [] ([], Element t as cs)) > 10000")
    case True
    then have t: "t = ''svg''"
      and big: "10000 < length (outerHTML [] ([], Element ''svg'' as cs))" by auto
    show ?thesis using placeholder_facts(3) by (simp add: t big)
  next
    case False
    then have eq0: "replaceLargeSvg (Element t as cs) = Element t as (replaceLargeSvgL cs)"
      by (cases "t = ''svg''") simp_all
    with "2.prems"(2) have diff: "imgSrcs (replaceLargeSvgL cs) \<noteq> imgSrcs cs"
      by (auto simp: imgSrcs_simps(4) attrOrEmpty_def split: if_splits)
    have raw: "t \<noteq> ''script'' \<and> t \<noteq> ''style''"
    proof (rule ccontr)
      assume "\<not> (t \<noteq> ''script'' \<and> t \<noteq> ''style'')"
      with "2.prems"(1) have "imgNodes cs = []" by (auto simp: sel_img)
      then have "imgSrcs cs = []" "imgSrcs (replaceLargeSvgL cs) = []"
        by (simp_all add: imgNodes_empty_srcs replaceLargeSvg_imgNodes_empty(2))
      with diff show False by simp
    qed
    from False have eq: "replaceLargeSvg (Element t as cs) = Element t as (replaceLargeSvgL cs)"
      by (cases "t = ''svg''") simp_all
    from "2.IH" False "2.prems"(1) diff have "hasInk (textOfL tx (replaceLargeSvgL cs))" by simp
    then show ?thesis unfolding eq using raw by simp
  qed
next
  case 3
  then show ?case by simp
next
  case (4 c cs)
  from "4.prems"(2) imgSrcs_simps(2) [of c cs]
    imgSrcs_simps(2) [of "replaceLargeSvg c" "replaceLargeSvgL cs"]
  have "imgSrcs [replaceLargeSvg c] \<noteq> imgSrcs [c] \<or> imgSrcs (replaceLargeSvgL cs) \<noteq> imgSrcs cs"
    by auto
  with "4.IH" "4.prems"(1) show ?case by (auto simp: hasInk_append)
qed

text \<open>A page in the parser's shape, through one removal step.\<close>

lemma removeWhereL_page:
  assumes safe: "\<forall>m \<in> set (elemsL D). P m \<longrightarrow> imgNodes [m] = []"
    and D: "D = [Element ''html'' ha (H @ [Element ''body'' ba bk])]"
    and imgs: "imgNodes bk \<noteq> []"
  shows "removeWhereL P D
    = [Element ''html'' ha (removeWhereL P H @ [Element ''body'' ba (removeWhereL P bk)])]"
proof -
  let ?b = "Element ''body'' ba bk"
  let ?e = "Element ''html'' ha (H @ [?b])"
  have "imgNodes [?b] \<noteq> []" using imgs by (simp add: imgNodes_simps(4))
  moreover have "imgNodes [?e] \<noteq> []"
    using imgs imgNodes_simps(2) [of ?b "[]"] by (simp add: imgNodes_simps(1,4,5))
  moreover have "?e \<in> set (elemsL D)" "?b \<in> set (elemsL D)"
    by (simp_all add: D elemsL_append)
  ultimately have "\<not> P ?e" "\<not> P ?b" using safe by blast+
  then show ?thesis by (simp add: D removeWhereL_append)
qed


lemma page_step:
  assumes safe: "\<forall>m \<in> set (elemsL D). P m \<longrightarrow> imgNodes [m] = []"
    and D: "D = [Element ''html'' ha (H @ [Element ''body'' ba bk])]"
    and H: "imgNodes H = []" and bk: "imgSrcs bk \<noteq> []" and raw: "rawCleanL D"
  shows "\<exists>H' bk'. removeWhereL P D = [Element ''html'' ha (H' @ [Element ''body'' ba bk'])]
     \<and> imgNodes H' = [] \<and> imgSrcs bk' = imgSrcs bk \<and> rawCleanL (removeWhereL P D)"
proof -
  from bk have "imgNodes bk \<noteq> []" using imgNodes_empty_srcs by blast
  from removeWhereL_page [OF safe D this]
  have shape: "removeWhereL P D
    = [Element ''html'' ha (removeWhereL P H @ [Element ''body'' ba (removeWhereL P bk)])]" .
  have "set (elemsL bk) \<subseteq> set (elemsL D)"
    by (auto simp: D elemsL_append)
  with safe have "\<forall>m \<in> set (elemsL bk). P m \<longrightarrow> imgNodes [m] = []" by blast
  then have srcs: "imgSrcs (removeWhereL P bk) = imgSrcs bk"
    by (rule removeWhere_imgSrcs(2))
  have "imgNodes (removeWhereL P H) = []"
    using H by (rule removeWhere_imgNodes_empty(2))
  moreover have "rawCleanL (removeWhereL P D)"
    using raw by (rule rawClean_removeWhere(2))
  ultimately show ?thesis using shape srcs by blast
qed

lemma page_fold:
  assumes "D = [Element ''html'' ha (H @ [Element ''body'' ba bk])]"
    and "imgNodes H = []" and "imgSrcs bk \<noteq> []" and "rawCleanL D"
  shows "\<exists>H' bk'. foldl (\<lambda>d selector. removeWhereL (irrelevant selector) d) D sels
       = [Element ''html'' ha (H' @ [Element ''body'' ba bk'])]
     \<and> imgNodes H' = [] \<and> imgSrcs bk' = imgSrcs bk
     \<and> rawCleanL (foldl (\<lambda>d selector. removeWhereL (irrelevant selector) d) D sels)"
  using assms
proof (induction sels arbitrary: D H bk)
  case Nil
  then show ?case by auto
next
  case (Cons sel sels)
  have safe: "\<forall>m \<in> set (elemsL D). irrelevant sel m \<longrightarrow> imgNodes [m] = []"
    using irrelevant_no_images by blast
  from page_step [OF safe Cons.prems]
  obtain H1 bk1 where
    s1: "removeWhereL (irrelevant sel) D = [Element ''html'' ha (H1 @ [Element ''body'' ba bk1])]"
    and h1: "imgNodes H1 = []" and b1: "imgSrcs bk1 = imgSrcs bk"
    and r1: "rawCleanL (removeWhereL (irrelevant sel) D)"
    by blast
  from b1 Cons.prems(3) have "imgSrcs bk1 \<noteq> []" by simp
  from Cons.IH [OF s1 h1 this r1] b1 show ?case by simp
qed

lemma replaceLargeSvg_srcs_subset:
  "set (imgSrcs [replaceLargeSvg n]) \<subseteq> set (imgSrcs [n])"
  "set (imgSrcs (replaceLargeSvgL ns)) \<subseteq> set (imgSrcs ns)"
proof (induction n and ns rule: replaceLargeSvg_replaceLargeSvgL.induct)
  case (1 s)
  then show ?case by simp
next
  case (2 t as cs)
  then show ?case
    by (auto simp: imgSrcs_simps(4) placeholder_facts(2) attrOrEmpty_def)
next
  case 3
  then show ?case by simp
next
  case (4 c cs)
  then show ?case
    using imgSrcs_simps(2) [of c cs]
      imgSrcs_simps(2) [of "replaceLargeSvg c" "replaceLargeSvgL cs"]
    by auto
qed

lemma cleanup_keeps_body:
  assumes doc: "doc = [Element ''html'' ha (H @ [Element ''body'' ba bk])]"
    and head: "imgNodes H = []" and raw: "rawCleanL doc"
    and s: "s \<in> set (imgSrcs doc)"
    and lost: "s \<notin> set (imgSrcs (removeWhereL (isEmptyElement tx) (replaceLargeSvgL (removeWhereL isAnalytics
        (foldl (\<lambda>d selector. removeWhereL (irrelevant selector) d) doc IRRELEVANT_SELECTORS)))))"
  shows "hasBody (removeWhereL (isEmptyElement tx) (replaceLargeSvgL (removeWhereL isAnalytics
        (foldl (\<lambda>d selector. removeWhereL (irrelevant selector) d) doc IRRELEVANT_SELECTORS))))"
proof -
  let ?d1 = "foldl (\<lambda>d selector. removeWhereL (irrelevant selector) d) doc IRRELEVANT_SELECTORS"
  let ?d2 = "removeWhereL isAnalytics ?d1"
  let ?d3 = "replaceLargeSvgL ?d2"
  let ?d4 = "removeWhereL (isEmptyElement tx) ?d3"
  have srcs0: "imgSrcs doc = imgSrcs bk"
    using imgNodes_empty_srcs [OF head]
      imgSrcs_simps(2) [of "Element ''body'' ba bk" "[]"]
    by (simp add: doc imgSrcs_simps(1,4,5) attrOrEmpty_def)
  with s have bk: "imgSrcs bk \<noteq> []" by auto
  from page_fold [OF doc head bk raw, of IRRELEVANT_SELECTORS]
  obtain H1 bk1 where
    d1: "?d1 = [Element ''html'' ha (H1 @ [Element ''body'' ba bk1])]"
    and h1: "imgNodes H1 = []" and b1: "imgSrcs bk1 = imgSrcs bk" and r1: "rawCleanL ?d1"
    by blast
  have safe2: "\<forall>m \<in> set (elemsL ?d1). isAnalytics m \<longrightarrow> imgNodes [m] = []"
    using rawClean_script_no_images(2) [OF r1] isAnalytics_script by blast
  from b1 bk have bk1: "imgSrcs bk1 \<noteq> []" by simp
  from page_step [OF safe2 d1 h1 bk1 r1]
  obtain H2 bk2 where
    d2: "?d2 = [Element ''html'' ha (H2 @ [Element ''body'' ba bk2])]"
    and h2: "imgNodes H2 = []" and b2: "imgSrcs bk2 = imgSrcs bk1" and r2: "rawCleanL ?d2"
    by blast
  let ?bk3 = "replaceLargeSvgL bk2"
  let ?H3 = "replaceLargeSvgL H2"
  have d3: "?d3 = [Element ''html'' ha (?H3 @ [Element ''body'' ba ?bk3])]"
    by (simp add: d2 replaceLargeSvgL_append)
  have h3: "imgSrcs ?H3 = []"
    using h2 by (simp add: replaceLargeSvg_imgNodes_empty(2) imgNodes_empty_srcs)
  have safe4: "\<forall>m \<in> set (elemsL ?d3). isEmptyElement tx m \<longrightarrow> imgNodes [m] = []"
    using isEmptyElement_no_images by blast
  have "imgSrcs ?d4 = imgSrcs ?d3"
    using safe4 by (rule removeWhere_imgSrcs(2))
  also have "\<dots> = imgSrcs ?bk3"
    using h3 imgSrcs_simps(2) [of "Element ''body'' ba ?bk3" "[]"]
    by (simp add: d3 imgSrcs_simps(1,4,5) attrOrEmpty_def)
  finally have "s \<notin> set (imgSrcs ?bk3)" using lost by simp
  moreover have "s \<in> set (imgSrcs bk2)" using s srcs0 b1 b2 by simp
  ultimately have diff: "imgSrcs ?bk3 \<noteq> imgSrcs bk2" by auto
  have "rawCleanL bk2" using r2 by (simp add: d2 rawCleanL_append)
  from replaceLargeSvg_ink(2) [OF this diff] have ink: "hasInk (textOfL tx ?bk3)" .
  let ?b3 = "Element ''body'' ba ?bk3"
  let ?e3 = "Element ''html'' ha (?H3 @ [?b3])"
  have "trim (textOf tx ?b3) \<noteq> []"
    using ink by (simp add: trim_hasInk)
  then have nb: "\<not> isEmptyElement tx ?b3" by (simp add: isEmptyElement_def)
  have "hasInk (textOf tx ?e3)"
    using ink by (simp add: textOfL_append hasInk_append)
  then have "trim (textOf tx ?e3) \<noteq> []" by (rule trim_hasInk)
  then have ne: "\<not> isEmptyElement tx ?e3" by (simp add: isEmptyElement_def)
  have "?d4 = [Element ''html'' ha (removeWhereL (isEmptyElement tx) ?H3
                @ [Element ''body'' ba (removeWhereL (isEmptyElement tx) ?bk3)])]"
    using nb ne by (simp add: d3 removeWhereL_append)
  then show ?thesis
    by (simp add: hasBody_def selectNodes_Element selectNodes_append)
qed


lemma appendToBody_keeps:
  "set (imgSrcs [n]) \<subseteq> set (imgSrcs [appendToBody i n])"
  "set (imgSrcs ns) \<subseteq> set (imgSrcs (appendToBodyL i ns))"
proof (induction i n and i ns rule: appendToBody_appendToBodyL.induct)
  case (1 img s)
  then show ?case by simp
next
  case (2 img t as cs)
  then show ?case
    by (auto simp: imgSrcs_simps(4,5) attrOrEmpty_def)
next
  case (3 img)
  then show ?case by simp
next
  case (4 img c cs)
  then show ?case
    using imgSrcs_simps(2) [of c cs]
      imgSrcs_simps(2) [of "appendToBody img c" "appendToBodyL img cs"]
    by auto
qed

lemma appendToBody_adds:
  "imgSrcs [i] = [s] \<Longrightarrow> selectNodes [tag ''body''] [n] \<noteq> []
     \<Longrightarrow> s \<in> set (imgSrcs [appendToBody i n])"
  "imgSrcs [i] = [s] \<Longrightarrow> selectNodes [tag ''body''] ns \<noteq> []
     \<Longrightarrow> s \<in> set (imgSrcs (appendToBodyL i ns))"
proof (induction i n and i ns rule: appendToBody_appendToBodyL.induct)
  case (1 img s)
  then show ?case by (simp add: selectNodes_Text)
next
  case (2 img t as cs)
  show ?case
  proof (cases "t = ''body''")
    case True
    then show ?thesis
      using "2.prems"(1) by (simp add: imgSrcs_simps(4,5))
  next
    case False
    with "2.prems" have "selectNodes [tag ''body''] cs \<noteq> []"
      by (simp add: selectNodes_Element)
    with "2.IH" "2.prems"(1) have "s \<in> set (imgSrcs (appendToBodyL img cs))" by simp
    then show ?thesis by (simp add: imgSrcs_simps(4,5))
  qed
next
  case (3 img)
  then show ?case by (simp add: selectNodes_Nil)
next
  case (4 img c cs)
  from "4.prems" selectNodes_Cons [of "[tag ''body'']" c cs]
  have "selectNodes [tag ''body''] [c] \<noteq> [] \<or> selectNodes [tag ''body''] cs \<noteq> []"
    by auto
  with "4.IH" "4.prems"(1) show ?case
    using imgSrcs_simps(2) [of "appendToBody img c" "appendToBodyL img cs"] by auto
qed

lemma appendToBody_body:
  "selectNodes [tag ''body''] [n] \<noteq> [] \<Longrightarrow> selectNodes [tag ''body''] [appendToBody i n] \<noteq> []"
  "selectNodes [tag ''body''] ns \<noteq> [] \<Longrightarrow> selectNodes [tag ''body''] (appendToBodyL i ns) \<noteq> []"
proof (induction i n and i ns rule: appendToBody_appendToBodyL.induct)
  case (1 img s)
  then show ?case by simp
next
  case (2 img t as cs)
  then show ?case
    by (auto simp: selectNodes_Element selectNodes_append split: if_splits)
next
  case (3 img)
  then show ?case by simp
next
  case (4 img c cs)
  from "4.prems" selectNodes_Cons [of "[tag ''body'']" c cs]
  have "selectNodes [tag ''body''] [c] \<noteq> [] \<or> selectNodes [tag ''body''] cs \<noteq> []"
    by auto
  with "4.IH" show ?case
    using selectNodes_Cons [of "[tag ''body'']" "appendToBody img c" "appendToBodyL img cs"]
    by auto
qed

lemma restore_keeps:
  "set (imgSrcs D) \<subseteq> set (imgSrcs (foldl (restoreImage cur) D xs))"
proof (induction xs arbitrary: D)
  case Nil
  then show ?case by simp
next
  case (Cons x xs)
  have "set (imgSrcs D) \<subseteq> set (imgSrcs (restoreImage cur D x))"
    using appendToBody_keeps(2) by (simp add: restoreImage_def Let_def)
  with Cons.IH [of "restoreImage cur D x"] show ?case by auto
qed

lemma restore_body: "hasBody D \<Longrightarrow> hasBody (foldl (restoreImage cur) D xs)"
proof (induction xs arbitrary: D)
  case Nil
  then show ?case by simp
next
  case (Cons x xs)
  have "hasBody (restoreImage cur D x)"
    using Cons.prems appendToBody_body(2) by (simp add: restoreImage_def Let_def hasBody_def)
  with Cons.IH show ?case by simp
qed

lemma restore_adds:
  assumes "x \<in> set xs" and "hasBody D" and "x = Element ''img'' as cs"
    and "attrOrEmpty ''src'' x = s" and "s \<noteq> []" and "s \<notin> set cur"
  shows "s \<in> set (imgSrcs (foldl (restoreImage cur) D xs))"
  using assms(1,2)
proof (induction xs arbitrary: D)
  case Nil
  then show ?case by simp
next
  case (Cons y ys)
  show ?case
  proof (cases "y = x")
    case True
    have re: "reparseImage x = Element ''img'' as []"
      by (simp add: reparseImage_def assms(3))
    have src: "attrOrEmpty ''src'' (Element ''img'' as []) = s"
      using assms(3,4) by (simp add: attrOrEmpty_def)
    then have one: "imgSrcs [Element ''img'' as []] = [s]"
      using assms(5) by (simp add: imgSrcs_simps(1,4))
    have "restoreImage cur D x = appendToBodyL (Element ''img'' as []) D"
      using assms(5,6) src by (simp add: restoreImage_def Let_def re)
    moreover have "s \<in> set (imgSrcs (appendToBodyL (Element ''img'' as []) D))"
      using appendToBody_adds(2) [OF one] Cons.prems(2) by (simp add: hasBody_def)
    ultimately have "s \<in> set (imgSrcs (restoreImage cur D y))" using True by simp
    then show ?thesis
      using restore_keeps [of "restoreImage cur D y" cur ys] by auto
  next
    case False
    with Cons.prems(1) have "x \<in> set ys" by simp
    moreover have "hasBody (restoreImage cur D y)"
      using Cons.prems(2) restore_body [of D cur "[y]"] by simp
    ultimately show ?thesis using Cons.IH by simp
  qed
qed

lemma imgSrcs_from_node:
  assumes "s \<in> set (imgSrcs forest)"
  shows "\<exists>as cs. Element ''img'' as cs \<in> set (selectNodes [tag ''img''] forest)
           \<and> attrOrEmpty ''src'' (Element ''img'' as cs) = s \<and> s \<noteq> []"
proof -
  from assms obtain n where n: "n \<in> set (selectNodes [tag ''img''] forest)"
    and src: "attrOrEmpty ''src'' n = s" and ne: "s \<noteq> []"
    by (auto simp: imgSrcs_def)
  from n have "matchesCompound (tag ''img'') n"
    by (simp add: selectNodes_def)
  then obtain as cs where "n = Element ''img'' as cs"
    by (cases n) auto
  with n src ne show ?thesis by blast
qed

lemma length_escapeText: "length s \<le> length (escapeText s)"
  by (induction s) (auto simp: escapeText_def)

lemma bigSvg_long: "10000 < length (outerHTML [] ([], bigSvg))"
proof -
  have "length bigText = 10000" by (simp add: bigText_def)
  then have "10000 \<le> length (escapeText bigText)"
    using length_escapeText [of bigText] by simp
  then show ?thesis
    by (simp add: outerHTML_def bigSvg_def rawTextElements_def voidElements_def)
qed

lemma bigSvg_replaced: "replaceLargeSvg bigSvg = svgPlaceholder"
  using bigSvg_long by (simp add: bigSvg_def)

lemma removeWhere_none:
  "\<forall>m \<in> set (elems n). \<not> P m \<Longrightarrow> removeWhere P n = [n]"
  "\<forall>m \<in> set (elemsL ns). \<not> P m \<Longrightarrow> removeWhereL P ns = ns"
  by (induction P n and P ns rule: removeWhere_removeWhereL.induct) auto

lemma fold_none:
  "\<forall>sel \<in> set sels. \<forall>m \<in> set (elemsL D). \<not> irrelevant sel m \<Longrightarrow>
   foldl (\<lambda>d selector. removeWhereL (irrelevant selector) d) D sels = D"
  by (induction sels) (auto simp: removeWhere_none(2))

lemma plain_element_kept:
  "sel \<in> set IRRELEVANT_SELECTORS \<Longrightarrow> \<not> matchesCompound sel (Element t [] cs)"
  by (auto simp: IRRELEVANT_SELECTORS_def attrOrEmpty_def)

lemma docBigSvg_elems:
  "m \<in> set (elemsL docBigSvg) \<Longrightarrow> (\<exists>t cs. m = Element t [] cs \<and> t \<noteq> ''script'') \<or> tagOf m = ''img''"
  by (auto simp: docBigSvg_def loadMarkup_def bigSvg_def)

lemma docBigSvg_step1:
  "foldl (\<lambda>d selector. removeWhereL (irrelevant selector) d) docBigSvg IRRELEVANT_SELECTORS = docBigSvg"
proof (rule fold_none, intro ballI)
  fix sel m
  assume sel: "sel \<in> set IRRELEVANT_SELECTORS" and m: "m \<in> set (elemsL docBigSvg)"
  from docBigSvg_elems [OF m] show "\<not> irrelevant sel m"
  proof
    assume "\<exists>t cs. m = Element t [] cs \<and> t \<noteq> ''script''"
    then show ?thesis using plain_element_kept [OF sel] by (auto simp: irrelevant_def)
  next
    assume "tagOf m = ''img''"
    then show ?thesis by (cases m) (auto simp: irrelevant_def)
  qed
qed

lemma docBigSvg_step2: "removeWhereL isAnalytics docBigSvg = docBigSvg"
proof (rule removeWhere_none(2), intro ballI)
  fix m
  assume "m \<in> set (elemsL docBigSvg)"
  from docBigSvg_elems [OF this] show "\<not> isAnalytics m"
    by (cases m) (auto simp: isAnalytics_def)
qed

lemma docBigSvg_step3:
  "replaceLargeSvgL docBigSvg
     = [Element ''html'' [] [Element ''head'' [] [], Element ''body'' [] [svgPlaceholder]]]"
  by (simp add: docBigSvg_def loadMarkup_def bigSvg_replaced)

lemma docBigSvg_step4_cases:
  "removeWhereL (isEmptyElement True)
     [Element ''html'' [] [Element ''head'' [] [], Element ''body'' [] [svgPlaceholder]]]
   = [Element ''html'' [] [Element ''body'' [] [svgPlaceholder]]]"
  "removeWhereL (isEmptyElement False)
     [Element ''html'' [] [Element ''head'' [] [], Element ''body'' [] [svgPlaceholder]]]
   = [Element ''html'' [] [Element ''body'' [] [svgPlaceholder]]]"
  by code_simp+

lemma docBigSvg_step4:
  "removeWhereL (isEmptyElement tx)
     [Element ''html'' [] [Element ''head'' [] [], Element ''body'' [] [svgPlaceholder]]]
   = [Element ''html'' [] [Element ''body'' [] [svgPlaceholder]]]"
  by (cases tx) (simp_all only: docBigSvg_step4_cases)

lemma docBigSvg_images:
  "selectNodes [tag ''img''] docBigSvg = [Element ''img'' [(''src'', ''chart.png'')] []]"
  by (simp add: docBigSvg_def loadMarkup_def bigSvg_def selectNodes_def)

lemma docBigSvg_cleaned:
  "removeIrrelevantContent tx docBigSvg
     = [Element ''html'' [] [Element ''body'' []
          [svgPlaceholder, Element ''img'' [(''src'', ''chart.png'')] []]]]"
proof -
  have cur: "imgSrcs [Element ''html'' [] [Element ''body'' [] [svgPlaceholder]]] = []"
    by code_simp
  have "removeIrrelevantContent tx docBigSvg
      = foldl (restoreImage [])
          [Element ''html'' [] [Element ''body'' [] [svgPlaceholder]]]
          [Element ''img'' [(''src'', ''chart.png'')] []]"
    unfolding removeIrrelevantContent_def Let_def docBigSvg_step1 docBigSvg_step2
      docBigSvg_step3 docBigSvg_step4 docBigSvg_images cur ..
  then show ?thesis
    by (simp add: restoreImage_def reparseImage_def attrOrEmpty_def Let_def svgPlaceholder_def)
qed


text \<open>
  Where the restoring loop does what its comment says. For a document whose \<open>html\<close>
  element ends with the \<open>body\<close>, with no image before the body and none below a
  \<open>script\<close> or \<open>style\<close> element, every \<open>src\<close> value of an image of the input is the
  \<open>src\<close> value of an image of the output of \<open>removeIrrelevantContent\<close>, under either
  behaviour of \<open>.text()\<close>: the removals take no image away, and an image that
  disappears with a large \<open>svg\<close> is appended to the body again.
\<close>

lemma images_survive_cleanup:
  assumes doc: "doc = [Element ''html'' ha (H @ [Element ''body'' ba bk])]"
    and head: "imgNodes H = []"
    and raw: "rawCleanL doc"
  shows "set (imgSrcs doc) \<subseteq> set (imgSrcs (removeIrrelevantContent tx doc))"
proof
  fix s
  assume s: "s \<in> set (imgSrcs doc)"
  let ?d4 = "removeWhereL (isEmptyElement tx) (replaceLargeSvgL (removeWhereL isAnalytics
        (foldl (\<lambda>d selector. removeWhereL (irrelevant selector) d) doc IRRELEVANT_SELECTORS)))"
  have res: "removeIrrelevantContent tx doc
      = foldl (restoreImage (imgSrcs ?d4)) ?d4 (selectNodes [tag ''img''] doc)"
    by (simp add: removeIrrelevantContent_def Let_def)
  show "s \<in> set (imgSrcs (removeIrrelevantContent tx doc))"
  proof (cases "s \<in> set (imgSrcs ?d4)")
    case True
    then show ?thesis
      unfolding res using restore_keeps by blast
  next
    case False
    from cleanup_keeps_body [OF doc head raw s False] have body: "hasBody ?d4" .
    from imgSrcs_from_node [OF s] obtain as cs where
      x: "Element ''img'' as cs \<in> set (selectNodes [tag ''img''] doc)"
      and src: "attrOrEmpty ''src'' (Element ''img'' as cs) = s" and ne: "s \<noteq> []"
      by blast
    show ?thesis
      unfolding res
      by (rule restore_adds [OF x body refl src ne False])
  qed
qed

text \<open>The image of \<open>docBigSvg\<close> disappears with the drawing and is appended to the body.\<close>

lemma images_restored_example:
  "rawCleanL docBigSvg
   \<and> imgSrcs docBigSvg = [''chart.png'']
   \<and> imgSrcs (replaceLargeSvgL docBigSvg) = []
   \<and> imgSrcs (removeIrrelevantContent tx docBigSvg) = [''chart.png'']
   \<and> set (imgSrcs docBigSvg) \<subseteq> set (imgSrcs (removeIrrelevantContent tx docBigSvg))"
proof -
  have shape: "docBigSvg
      = [Element ''html'' [] ([Element ''head'' [] []] @ [Element ''body'' [] [bigSvg]])]"
    by (simp add: docBigSvg_def loadMarkup_def)
  have head: "imgNodes [Element ''head'' [] []] = []"
    by (simp add: imgNodes_simps(1,4))
  have raw: "rawCleanL docBigSvg"
    by (simp add: shape bigSvg_def)
  have before: "imgSrcs docBigSvg = [''chart.png'']"
    by (simp add: imgSrcs_def docBigSvg_images attrOrEmpty_def)
  have between: "imgSrcs (replaceLargeSvgL docBigSvg) = []"
    unfolding docBigSvg_step3 by code_simp
  have after: "imgSrcs (removeIrrelevantContent tx docBigSvg) = [''chart.png'']"
    unfolding docBigSvg_cleaned by code_simp
  from images_survive_cleanup [OF shape head raw] raw before between after
  show ?thesis by blast
qed

text \<open>What the cleanup leaves of a small page: the banner, the tracking script, the empty paragraph and the empty head are gone.\<close>

lemma cleanup_example:
  "map tagOf (elemsL docSmall)
     = [''html'', ''head'', ''body'', ''div'', ''script'', ''p'', ''span'', ''div'', ''img'', ''p'']
   \<and> map tagOf (elemsL (removeIrrelevantContent True docSmall))
     = [''html'', ''body'', ''div'', ''img'', ''p'']
   \<and> map tagOf (elemsL (removeIrrelevantContent False docSmall))
     = [''html'', ''body'', ''div'', ''img'', ''p'']"
  by code_simp

text \<open>
  C10. The cleanup does not keep every image. On the page \<open>docSvgScript\<close> the image
  lies below a \<open>script\<close> element of an \<open>svg\<close>. No cleanup selector matches; the loop
  over \<open>$('script')\<close> finds \<open>hubspot\<close> in the content of the script and removes the
  script with the image; the loop over \<open>$('*')\<close> then removes the \<open>html\<close> element, which
  has no text and no image left; the restoring loop appends the stored image to
  \<open>$('body')\<close>, which selects nothing. The result is the empty document, under either
  behaviour of \<open>.text()\<close>: the \<open>src\<close> value of the input's image is the \<open>src\<close> value of
  no image of the output, although the method is to preserve all images and to re-insert
  any lost one.
\<close>

theorem removeIrrelevantContent_loses_image:
  "imgSrcs docSvgScript = [''https://cdn.hubspot.net/logo.png'']
   \<and> \<not> rawCleanL docSvgScript
   \<and> foldl (\<lambda>d selector. removeWhereL (irrelevant selector) d) docSvgScript IRRELEVANT_SELECTORS
       = docSvgScript
   \<and> removeWhereL isAnalytics docSvgScript
       = [Element ''html'' [] [Element ''head'' [] [], Element ''body'' [] [Element ''svg'' [] []]]]
   \<and> removeIrrelevantContent True docSvgScript = []
   \<and> removeIrrelevantContent False docSvgScript = []
   \<and> ''https://cdn.hubspot.net/logo.png'' \<in> set (imgSrcs docSvgScript)
   \<and> ''https://cdn.hubspot.net/logo.png'' \<notin> set (imgSrcs (removeIrrelevantContent True docSvgScript))
   \<and> ''https://cdn.hubspot.net/logo.png'' \<notin> set (imgSrcs (removeIrrelevantContent False docSvgScript))"
  by code_simp

end
